theory Spec2Isabelle
  imports Complex_Main
begin

section \<open>Python values, errors and text\<close>

text \<open>
  The scraper handles values decoded from JSON and text cut out of HTML pages. A Python
  value is a \<open>pyval\<close>; a dictionary is an association list in insertion order. JSON numbers
  with a fraction or an exponent are not part of this value type. Text is a \<open>string\<close>
  holding one character per code point, for the code points 0 to 255; the character
  classes below are Python's on that range. An exception is a value \<open>Inl e\<close> of a sum type.
\<close>

datatype pyval =
    PNone
  | PBool bool
  | PInt int
  | PStr string
  | PList "pyval list"
  | PDict "(string \<times> pyval) list"

datatype py_error =
    TypeError | ValueError | AttributeError | KeyError | IndexError | OverflowError

type_synonym descriptor = "(string \<times> pyval) list"

text \<open>\<open>d.get(k)\<close>: the value stored under \<open>k\<close>, \<open>None\<close> when the key is missing.\<close>

definition dict_get :: "descriptor \<Rightarrow> string \<Rightarrow> pyval" where
  "dict_get d k = (case map_of d k of None \<Rightarrow> PNone | Some v \<Rightarrow> v)"

text \<open>\<open>d[k]\<close> raises KeyError when the key is missing.\<close>

definition dict_item :: "descriptor \<Rightarrow> string \<Rightarrow> py_error + pyval" where
  "dict_item d k = (case map_of d k of None \<Rightarrow> Inl KeyError | Some v \<Rightarrow> Inr v)"

text \<open>\<open>d[k] = v\<close>: a present key keeps its position, a new key goes last.\<close>

fun dict_set :: "descriptor \<Rightarrow> string \<Rightarrow> pyval \<Rightarrow> descriptor" where
  "dict_set [] k v = [(k, v)]"
| "dict_set ((k', v') # d) k v = (if k' = k then (k, v) # d else (k', v') # dict_set d k v)"

text \<open>Truth value of an object, as \<open>if x:\<close> and \<open>not x\<close> read it.\<close>

fun truthy :: "pyval \<Rightarrow> bool" where
  "truthy PNone = False"
| "truthy (PBool b) = b"
| "truthy (PInt n) = (n \<noteq> 0)"
| "truthy (PStr s) = (s \<noteq> [])"
| "truthy (PList l) = (l \<noteq> [])"
| "truthy (PDict d) = (d \<noteq> [])"

subsection \<open>Characters\<close>

text \<open>\<open>str.isspace\<close>, the characters \<open>str.strip()\<close> removes.\<close>

definition isspace :: "char \<Rightarrow> bool" where
  "isspace c \<longleftrightarrow>
     c \<in> set [CHR 0x09, CHR 0x0A, CHR 0x0B, CHR 0x0C, CHR 0x0D, CHR 0x1C, CHR 0x1D, CHR 0x1E,
              CHR 0x1F, CHR 0x20, CHR 0x85, CHR 0xA0]"

text \<open>The decimal digits \<open>int()\<close> accepts on this range.\<close>

definition isdecimal :: "char \<Rightarrow> bool" where
  "isdecimal c \<longleftrightarrow> c \<in> set ''0123456789''"

definition digit_value :: "char \<Rightarrow> nat" where
  "digit_value c = length (takeWhile (\<lambda>d. d \<noteq> c) ''0123456789'')"

text \<open>\<open>str.isdigit\<close>: the ten decimal digits and the superscripts two, three and one.\<close>

definition isdigit :: "char \<Rightarrow> bool" where
  "isdigit c \<longleftrightarrow> isdecimal c \<or> c \<in> set [CHR 0xB2, CHR 0xB3, CHR 0xB9]"

text \<open>
  \<open>str.lower\<close> changes the capital letters: A to Z, and the accented capitals at the code
  points C0 to DE without the multiplication sign D7.
\<close>

definition capitals :: string where
  "capitals = ''ABCDEFGHIJKLMNOPQRSTUVWXYZ'' @
     [CHR 0xC0, CHR 0xC1, CHR 0xC2, CHR 0xC3, CHR 0xC4, CHR 0xC5, CHR 0xC6, CHR 0xC7,
      CHR 0xC8, CHR 0xC9, CHR 0xCA, CHR 0xCB, CHR 0xCC, CHR 0xCD, CHR 0xCE, CHR 0xCF,
      CHR 0xD0, CHR 0xD1, CHR 0xD2, CHR 0xD3, CHR 0xD4, CHR 0xD5, CHR 0xD6, CHR 0xD8,
      CHR 0xD9, CHR 0xDA, CHR 0xDB, CHR 0xDC, CHR 0xDD, CHR 0xDE]"

definition small_letters :: string where
  "small_letters = ''abcdefghijklmnopqrstuvwxyz'' @
     [CHR 0xE0, CHR 0xE1, CHR 0xE2, CHR 0xE3, CHR 0xE4, CHR 0xE5, CHR 0xE6, CHR 0xE7,
      CHR 0xE8, CHR 0xE9, CHR 0xEA, CHR 0xEB, CHR 0xEC, CHR 0xED, CHR 0xEE, CHR 0xEF,
      CHR 0xF0, CHR 0xF1, CHR 0xF2, CHR 0xF3, CHR 0xF4, CHR 0xF5, CHR 0xF6, CHR 0xF8,
      CHR 0xF9, CHR 0xFA, CHR 0xFB, CHR 0xFC, CHR 0xFD, CHR 0xFE]"

definition lower_char :: "char \<Rightarrow> char" where
  "lower_char c = (case map_of (zip capitals small_letters) c of None \<Rightarrow> c | Some l \<Rightarrow> l)"

definition lower :: "string \<Rightarrow> string" where
  "lower s = map lower_char s"

definition strip_with :: "(char \<Rightarrow> bool) \<Rightarrow> string \<Rightarrow> string" where
  "strip_with p s = rev (dropWhile p (rev (dropWhile p s)))"

definition strip :: "string \<Rightarrow> string" where
  "strip s = strip_with isspace s"

subsection \<open>Searching and cutting text\<close>

definition starts_with :: "string \<Rightarrow> string \<Rightarrow> bool" where
  "starts_with sub s \<longleftrightarrow> take (length sub) s = sub"

text \<open>\<open>sub in s\<close> for two strings.\<close>

fun contains :: "string \<Rightarrow> string \<Rightarrow> bool" where
  "contains sub [] = (sub = [])"
| "contains sub (c # cs) = (starts_with sub (c # cs) \<or> contains sub cs)"

text \<open>\<open>s.index(sub)\<close>: the first position of \<open>sub\<close>, ValueError when there is none.\<close>

fun index :: "string \<Rightarrow> string \<Rightarrow> py_error + nat" where
  "index [] sub = (if sub = [] then Inr 0 else Inl ValueError)"
| "index (c # cs) sub =
     (if starts_with sub (c # cs) then Inr 0
      else case index cs sub of Inl e \<Rightarrow> Inl e | Inr i \<Rightarrow> Inr (Suc i))"

text \<open>\<open>s.split(sep)\<close> for a separator of one character.\<close>

fun split :: "char \<Rightarrow> string \<Rightarrow> string list" where
  "split sep [] = [[]]"
| "split sep (c # cs) =
     (if c = sep then [] # split sep cs
      else case split sep cs of [] \<Rightarrow> [[c]] | p # ps \<Rightarrow> (c # p) # ps)"

text \<open>\<open>s.replace(old, new)\<close>: occurrences are replaced from the left, without overlap.\<close>

function replace :: "string \<Rightarrow> string \<Rightarrow> string \<Rightarrow> string" where
  "replace old new [] = (if old = [] then new else [])"
| "replace old new (c # cs) =
     (if old = [] then new @ c # replace old new cs
      else if starts_with old (c # cs) then new @ replace old new (drop (length old) (c # cs))
      else c # replace old new cs)"
  by pat_completeness auto
termination
  by (relation "measure (\<lambda>(old, new, s). length s)") auto

subsection \<open>Numbers and text\<close>

text \<open>
  \<open>int(s)\<close> for a string: blanks around the number are dropped, one sign may lead, and the
  digits may be grouped by single underscores. The blanks here are those \<open>int\<close> accepts,
  fewer than \<open>strip\<close> removes. Anything else raises ValueError. The limit that recent
  interpreters put on the number of digits is a setting of the interpreter and is left out.
\<close>

definition int_space :: "char \<Rightarrow> bool" where
  "int_space c \<longleftrightarrow>
     c \<in> set [CHR 0x09, CHR 0x0A, CHR 0x0B, CHR 0x0C, CHR 0x0D, CHR 0x20, CHR 0x85, CHR 0xA0]"

fun parse_digits :: "bool \<Rightarrow> nat \<Rightarrow> string \<Rightarrow> nat option" where
  "parse_digits prev acc [] = (if prev then Some acc else None)"
| "parse_digits prev acc (c # cs) =
     (if isdecimal c then parse_digits True (acc * 10 + digit_value c) cs
      else if c = CHR ''_'' \<and> prev then parse_digits False acc cs
      else None)"

definition int_of_str :: "string \<Rightarrow> py_error + int" where
  "int_of_str s =
     (case strip_with int_space s of
        [] \<Rightarrow> Inl ValueError
      | c # cs \<Rightarrow>
          (if c = CHR ''-'' then
             (case parse_digits False 0 cs of None \<Rightarrow> Inl ValueError | Some n \<Rightarrow> Inr (- int n))
           else if c = CHR ''+'' then
             (case parse_digits False 0 cs of None \<Rightarrow> Inl ValueError | Some n \<Rightarrow> Inr (int n))
           else
             (case parse_digits False 0 (c # cs) of None \<Rightarrow> Inl ValueError | Some n \<Rightarrow> Inr (int n))))"

text \<open>\<open>int(x)\<close> for any value.\<close>

fun py_int :: "pyval \<Rightarrow> py_error + int" where
  "py_int PNone = Inl TypeError"
| "py_int (PBool b) = Inr (if b then 1 else 0)"
| "py_int (PInt n) = Inr n"
| "py_int (PStr s) = int_of_str s"
| "py_int (PList l) = Inl TypeError"
| "py_int (PDict d) = Inl TypeError"

text \<open>\<open>str(n)\<close> for a natural number.\<close>

fun str_nat :: "nat \<Rightarrow> string" where
  "str_nat n =
     (if n < 10 then [''0123456789'' ! n]
      else str_nat (n div 10) @ [''0123456789'' ! (n mod 10)])"

declare str_nat.simps [simp del]

subsection \<open>Floating-point division and formatting\<close>

text \<open>
  The floats that occur are quotients of an integer by a power of two: \<open>Dyadic m k\<close> is
  the float \<open>m / 2 ^ k\<close>. Dividing an integer by a power of two gives the nearest float:
  the integer is rounded to 53 significant bits, a tie going to the even neighbour, and the
  scaling by the power of two is exact. A result of magnitude \<open>2 ^ 1024\<close> or more is
  beyond the floats and raises OverflowError.
\<close>

datatype pyfloat = Dyadic int nat

fun bit_length :: "nat \<Rightarrow> nat" where
  "bit_length n = (if n = 0 then 0 else Suc (bit_length (n div 2)))"

declare bit_length.simps [simp del]

definition round_to_double :: "nat \<Rightarrow> nat" where
  "round_to_double n =
     (if bit_length n \<le> 53 then n
      else let shift = bit_length n - 53;
               q = n div 2 ^ shift;
               r = n mod 2 ^ shift;
               half = 2 ^ (shift - 1)
           in if half < r \<or> (r = half \<and> odd q) then (q + 1) * 2 ^ shift else q * 2 ^ shift)"

text \<open>The float nearest to \<open>n / 2 ^ k\<close>.\<close>

definition nearest_float :: "int \<Rightarrow> nat \<Rightarrow> pyfloat" where
  "nearest_float n k = Dyadic (sgn n * int (round_to_double (nat \<bar>n\<bar>))) k"

text \<open>\<open>n / 2 ** k\<close> for an integer \<open>n\<close>.\<close>

definition true_divide :: "int \<Rightarrow> nat \<Rightarrow> py_error + pyfloat" where
  "true_divide n k =
     (if 2 ^ (1024 + k) \<le> round_to_double (nat \<bar>n\<bar>) then Inl OverflowError
      else Inr (nearest_float n k))"

text \<open>\<open>x >= t\<close> for a float \<open>x\<close> and an integer \<open>t\<close>; the comparison is exact.\<close>

fun float_ge :: "pyfloat \<Rightarrow> int \<Rightarrow> bool" where
  "float_ge (Dyadic m k) t = (t * 2 ^ k \<le> m)"

text \<open>
  The format \<open>.2f\<close> prints the decimal nearest to the float's exact value with two
  places, a tie going to the even neighbour, and keeps the sign of a negative float.
\<close>

fun format_2f :: "pyfloat \<Rightarrow> string" where
  "format_2f (Dyadic m k) =
     (let a = nat \<bar>m\<bar> * 100;
          q = a div 2 ^ k;
          r = a mod 2 ^ k;
          c = (if 2 ^ k < 2 * r \<or> (2 * r = 2 ^ k \<and> odd q) then q + 1 else q)
      in (if m < 0 then ''-'' else []) @ str_nat (c div 100) @ ''.''
           @ str_nat (c mod 100 div 10) @ str_nat (c mod 10))"

section \<open>Helpers of the download-center scraper\<close>

text \<open>
  \<open>convert_bytes_to_human_readable\<close>: \<open>1024 ** 3\<close> is \<open>2 ^ 30\<close> and \<open>1024 ** 2\<close> is
  \<open>2 ^ 20\<close>. The megabyte quotient is computed only on the second branch.
\<close>

definition convert_bytes_to_human_readable :: "int \<Rightarrow> int \<Rightarrow> py_error + string" where
  "convert_bytes_to_human_readable size_bytes threshold_gb =
     (case true_divide size_bytes 30 of
        Inl e \<Rightarrow> Inl e
      | Inr size_gb \<Rightarrow>
          if float_ge size_gb threshold_gb then Inr (format_2f size_gb @ '' GB'')
          else (case true_divide size_bytes 20 of
                  Inl e \<Rightarrow> Inl e
                | Inr size_mb \<Rightarrow> Inr (format_2f size_mb @ '' MB'')))"

text \<open>
  The loop of \<open>get_update_size\<close>, with the running total; the first size that \<open>int\<close>
  rejects ends it with that exception.
\<close>

fun sum_sizes :: "int \<Rightarrow> descriptor list \<Rightarrow> py_error + int" where
  "sum_sizes file_size [] = Inr file_size"
| "sum_sizes file_size (download_link_detail # rest) =
     (case py_int (dict_get download_link_detail ''size'') of
        Inl e \<Rightarrow> Inl e
      | Inr n \<Rightarrow> sum_sizes (file_size + n) rest)"

text \<open>The bare \<open>except\<close> turns every exception into the text \<open>N/A\<close>.\<close>

definition get_update_size :: "descriptor list \<Rightarrow> string" where
  "get_update_size download_details =
     (case sum_sizes 0 download_details of
        Inl e \<Rightarrow> ''N/A''
      | Inr file_size \<Rightarrow>
          (case convert_bytes_to_human_readable file_size 1 of
             Inl e \<Rightarrow> ''N/A''
           | Inr text \<Rightarrow> text))"

text \<open>The size a descriptor contributes to the total, when \<open>int\<close> accepts it.\<close>

definition size_of :: "descriptor \<Rightarrow> int" where
  "size_of d = (case py_int (dict_get d ''size'') of Inl e \<Rightarrow> 0 | Inr n \<Rightarrow> n)"

text \<open>
  \<open>get_version_number\<close> and \<open>get_last_updated\<close> return from inside the loop at its first
  round; with no descriptor the loop body never runs and the function returns \<open>None\<close>.
\<close>

fun get_version_number :: "descriptor list \<Rightarrow> pyval" where
  "get_version_number [] = PNone"
| "get_version_number (download_link_detail # rest) = dict_get download_link_detail ''version''"

fun get_last_updated :: "descriptor list \<Rightarrow> pyval" where
  "get_last_updated [] = PNone"
| "get_last_updated (download_link_detail # rest) = dict_get download_link_detail ''datePublished''"

text \<open>
  \<open>x in v\<close> for a string \<open>x\<close>: a substring test on text, a membership test on a list, a
  key test on a dictionary, and a TypeError on anything else.
\<close>

fun py_in :: "string \<Rightarrow> pyval \<Rightarrow> py_error + bool" where
  "py_in x (PStr s) = Inr (contains x s)"
| "py_in x (PList l) = Inr (PStr x \<in> set l)"
| "py_in x (PDict d) = Inr (x \<in> set (map fst d))"
| "py_in x PNone = Inl TypeError"
| "py_in x (PBool b) = Inl TypeError"
| "py_in x (PInt n) = Inl TypeError"

text \<open>
  \<open>get_architecture\<close>: the loop returns at the first descriptor whose name decides; when
  the loop ends without a return the function returns \<open>None\<close>, as it does on an exception.
\<close>

fun get_architecture :: "descriptor list \<Rightarrow> pyval" where
  "get_architecture [] = PNone"
| "get_architecture (download_link_detail # rest) =
     (let name = dict_get download_link_detail ''name'' in
      case py_in ''64'' name of
        Inl e \<Rightarrow> PNone
      | Inr True \<Rightarrow> PStr ''x64''
      | Inr False \<Rightarrow>
          (case py_in ''32'' name of
             Inl e \<Rightarrow> PNone
           | Inr True \<Rightarrow> PStr ''x86''
           | Inr False \<Rightarrow>
               (case py_in ''86'' name of
                  Inl e \<Rightarrow> PNone
                | Inr False \<Rightarrow> get_architecture rest
                | Inr True \<Rightarrow>
                    (case py_in ''64'' name of
                       Inl e \<Rightarrow> PNone
                     | Inr False \<Rightarrow> PStr ''x86''
                     | Inr True \<Rightarrow> get_architecture rest))))"

text \<open>
  The digits after the first \<open>kb\<close> of a lowercased text: the inner loop of
  \<open>get_kb_number\<close>, which the scraper repeats for the download title.
\<close>

definition digits_after_kb :: "string \<Rightarrow> py_error + string" where
  "digits_after_kb s =
     (case index s ''kb'' of
        Inl e \<Rightarrow> Inl e
      | Inr i \<Rightarrow> Inr (takeWhile isdigit (drop (i + 2) s)))"

text \<open>
  \<open>get_kb_number\<close> returns at the first file name that contains \<open>kb\<close>. A name that is not
  text has no \<open>lower\<close>; the exception makes the function return \<open>None\<close>.
\<close>

fun get_kb_number :: "descriptor list \<Rightarrow> pyval" where
  "get_kb_number [] = PNone"
| "get_kb_number (download_link_detail # rest) =
     (case dict_get download_link_detail ''name'' of
        PStr name \<Rightarrow>
          (let file_name = lower name in
           if contains ''kb'' file_name then
             (case digits_after_kb file_name of Inl e \<Rightarrow> PNone | Inr kb_number \<Rightarrow> PStr kb_number)
           else get_kb_number rest)
      | _ \<Rightarrow> PNone)"

section \<open>The download-center page\<close>

text \<open>
  What \<open>get_microsoft_windows_product_update\<close> reads from a fetched page, after the HTML
  and JSON libraries have done their part: the \<open>href\<close> of the canonical link (no value
  when the page has no such link), whether the scripts hold the details marker and the
  word \<open>downloadFile\<close>, and the four values cut out of the script and decoded (no value
  when the cutting or the decoding raises). The file list is a list of JSON objects.
\<close>

record download_page =
  canonical_link :: "pyval option"
  has_details :: bool
  download_file :: "descriptor list option"
  download_title :: "pyval option"
  download_description :: "pyval option"
  operating_system :: "pyval option"

text \<open>The dictionary built for a page; the key \<open>kb\<close> may be missing.\<close>

record parsed_dict =
  pd_download_info :: "descriptor list"
  pd_update_size :: string
  pd_version :: pyval
  pd_last_updated :: pyval
  pd_architecture :: pyval
  pd_title :: string
  pd_kb :: "pyval option"
  pd_description :: pyval
  pd_supported_products :: pyval
  pd_language :: string
  pd_update_url :: pyval

text \<open>\<open>parsed_dict.get("kb")\<close>.\<close>

definition get_kb :: "pyval option \<Rightarrow> pyval" where
  "get_kb kb = (case kb of None \<Rightarrow> PNone | Some v \<Rightarrow> v)"

text \<open>
  The value stored under \<open>kb\<close> from the title: the key is set only when the lowercased
  title contains \<open>kb\<close>.
\<close>

definition title_kb :: "string \<Rightarrow> py_error + pyval option" where
  "title_kb page_title =
     (let title = lower page_title in
      if contains ''kb'' title then
        (case digits_after_kb title of
           Inl e \<Rightarrow> Inl e
         | Inr kb_number \<Rightarrow> Inr (Some (PStr kb_number)))
      else Inr None)"

text \<open>The file names are consulted when the title left no usable value.\<close>

definition files_kb :: "pyval option \<Rightarrow> descriptor list \<Rightarrow> pyval option" where
  "files_kb kb files =
     (if \<not> truthy (get_kb kb) \<and> truthy (get_kb_number files) then Some (get_kb_number files)
      else kb)"

text \<open>
  The language list holds the one entry for English, so the loop runs once and the result
  has at most one dictionary. Every exception makes the function return the empty list.
\<close>

definition get_microsoft_windows_product_update :: "download_page \<Rightarrow> parsed_dict list" where
  "get_microsoft_windows_product_update page =
     (case canonical_link page of
        None \<Rightarrow> []
      | Some actual_download_link \<Rightarrow>
          if \<not> has_details page then []
          else
            (case download_file page of
               None \<Rightarrow> []
             | Some files \<Rightarrow>
                 (case download_title page of
                    Some (PStr title) \<Rightarrow>
                      (case title_kb title of
                         Inl e \<Rightarrow> []
                       | Inr kb \<Rightarrow>
                           (case download_description page of
                              None \<Rightarrow> []
                            | Some description \<Rightarrow>
                                (case operating_system page of
                                   None \<Rightarrow> []
                                 | Some operating_system_value \<Rightarrow>
                                     [\<lparr>pd_download_info = files,
                                       pd_update_size = get_update_size files,
                                       pd_version = get_version_number files,
                                       pd_last_updated = get_last_updated files,
                                       pd_architecture = get_architecture files,
                                       pd_title = title,
                                       pd_kb = files_kb kb files,
                                       pd_description = description,
                                       pd_supported_products = operating_system_value,
                                       pd_language = ''English'',
                                       pd_update_url = actual_download_link\<rparr>])))
                  | _ \<Rightarrow> [])))"

text \<open>
  The renaming loop of \<open>get_microsoft_download_center_update\<close>: each descriptor gets its
  \<open>url\<close> again under \<open>download_link\<close> and its \<open>name\<close> under \<open>file_name\<close>; a missing key
  raises KeyError.
\<close>

definition add_link_keys :: "descriptor \<Rightarrow> py_error + descriptor" where
  "add_link_keys download_link_detail =
     (case dict_item download_link_detail ''url'' of
        Inl e \<Rightarrow> Inl e
      | Inr url \<Rightarrow>
          (let d1 = dict_set download_link_detail ''download_link'' url in
           case dict_item d1 ''name'' of
             Inl e \<Rightarrow> Inl e
           | Inr name \<Rightarrow> Inr (dict_set d1 ''file_name'' name)))"

fun add_all_link_keys :: "descriptor list \<Rightarrow> py_error + descriptor list" where
  "add_all_link_keys [] = Inr []"
| "add_all_link_keys (d # ds) =
     (case add_link_keys d of
        Inl e \<Rightarrow> Inl e
      | Inr d' \<Rightarrow> (case add_all_link_keys ds of Inl e \<Rightarrow> Inl e | Inr ds' \<Rightarrow> Inr (d' # ds')))"

text \<open>\<open>"https://support.microsoft.com/help/" + patch_kb\<close>: only text can be appended.\<close>

definition support_link :: "pyval \<Rightarrow> py_error + string" where
  "support_link patch_kb =
     (case patch_kb of
        PStr k \<Rightarrow> Inr (''https://support.microsoft.com/help/'' @ k)
      | _ \<Rightarrow> Inl TypeError)"

text \<open>
  One record of the fallback path. \<open>dumps\<close> stands for \<open>json.dumps\<close>, which belongs to the
  JSON library.
\<close>

definition patch_record ::
    "(pyval \<Rightarrow> string) \<Rightarrow> pyval \<Rightarrow> parsed_dict \<Rightarrow> py_error + (string \<times> pyval) list" where
  "patch_record dumps kb update =
     (case add_all_link_keys (pd_download_info update) of
        Inl e \<Rightarrow> Inl e
      | Inr download_urls \<Rightarrow>
          (let patch_kb = (if \<not> truthy (get_kb (pd_kb update)) then kb else get_kb (pd_kb update)) in
           case support_link patch_kb of
             Inl e \<Rightarrow> Inl e
           | Inr support_url \<Rightarrow>
               Inr [(''kb'', patch_kb),
                    (''title'', PStr (pd_title update)),
                    (''kb_numbers'', patch_kb),
                    (''version'', pd_version update),
                    (''last_updated'', pd_last_updated update),
                    (''classification'', PStr ''Product Update''),
                    (''languages'', PStr (pd_language update)),
                    (''superseeds'', PStr ''None''),
                    (''msrc_number'', PStr ''None''),
                    (''msrc_severity'', PStr ''None''),
                    (''products_applicable'', pd_supported_products update),
                    (''architecture'', pd_architecture update),
                    (''uninstallable'', PStr ''Yes''),
                    (''requires_connectivity'', PStr ''No''),
                    (''requires_user_input'', PStr ''No''),
                    (''requires_restart'', PStr ''Yes''),
                    (''update_size'', PStr (pd_update_size update)),
                    (''more_info'', pd_update_url update),
                    (''description'', pd_description update),
                    (''support_url'', PStr support_url),
                    (''download_urls'', PStr (dumps (PList (map PDict download_urls))))]))"

fun patch_records ::
    "(pyval \<Rightarrow> string) \<Rightarrow> pyval \<Rightarrow> parsed_dict list \<Rightarrow> py_error + (string \<times> pyval) list list" where
  "patch_records dumps kb [] = Inr []"
| "patch_records dumps kb (update # rest) =
     (case patch_record dumps kb update of
        Inl e \<Rightarrow> Inl e
      | Inr r \<Rightarrow>
          (case patch_records dumps kb rest of Inl e \<Rightarrow> Inl e | Inr rs \<Rightarrow> Inr (r # rs)))"

text \<open>An exception anywhere in the loop loses the whole list.\<close>

definition get_microsoft_download_center_update ::
    "(pyval \<Rightarrow> string) \<Rightarrow> download_page \<Rightarrow> pyval \<Rightarrow> (string \<times> pyval) list list" where
  "get_microsoft_download_center_update dumps page kb =
     (let update_details = get_microsoft_windows_product_update page in
      if update_details \<noteq> [] then
        (case patch_records dumps kb update_details of Inl e \<Rightarrow> [] | Inr patch_list \<Rightarrow> patch_list)
      else [])"

section \<open>The update catalog\<close>

text \<open>
  The siblings that follow a marker element of a detail page are text nodes or elements.
  Only a text node has \<open>strip\<close>; calling it on an element raises.
\<close>

datatype node = Text string | Element

text \<open>
  The list comprehension of \<open>kb_numbers\<close>: every sibling that is not \<open>n/a\<close> goes through
  \<open>int\<close>, in order, and the first failure is raised.
\<close>

fun kb_list :: "node list \<Rightarrow> py_error + int list" where
  "kb_list [] = Inr []"
| "kb_list (Element # rest) = Inl TypeError"
| "kb_list (Text n # rest) =
     (if lower (strip n) \<noteq> ''n/a'' then
        (case int_of_str (strip n) of
           Inl e \<Rightarrow> Inl e
         | Inr k \<Rightarrow> (case kb_list rest of Inl e \<Rightarrow> Inl e | Inr ks \<Rightarrow> Inr (k # ks)))
      else kb_list rest)"

text \<open>
  The property \<open>kb_numbers\<close>, from the cached value \<open>_kb_numbers\<close> and the siblings of the
  KB marker (no value when the page has no marker). The result is also the new cached
  value. A marker with no sibling has \<open>next_sibling\<close> \<open>None\<close>, which has no \<open>strip\<close>.
\<close>

definition kb_numbers :: "int list option \<Rightarrow> node list option \<Rightarrow> py_error + int list option" where
  "kb_numbers cached raw_kb =
     (case cached of
        Some ks \<Rightarrow> Inr (Some ks)
      | None \<Rightarrow>
          (case raw_kb of
             None \<Rightarrow> Inr None
           | Some [] \<Rightarrow> Inl AttributeError
           | Some (Element # rest) \<Rightarrow> Inl TypeError
           | Some (Text t # rest) \<Rightarrow>
               if strip t \<noteq> [] then
                 (case kb_list (Text t # rest) of Inl e \<Rightarrow> Inl e | Inr ks \<Rightarrow> Inr (Some ks))
               else Inr None))"

text \<open>
  The property \<open>superseeds\<close>, from the text of the \<open>supersedesInfo\<close> container (no value
  when the page has no such container).
\<close>

definition superseeds :: "string option \<Rightarrow> pyval" where
  "superseeds super_sedes_info =
     (case super_sedes_info of
        None \<Rightarrow> PStr ''None''
      | Some text \<Rightarrow>
          (let superseeds_text = strip text in
           if superseeds_text \<noteq> [] then
             (let replaced = replace [CHR 0x0A, CHR 0x0D, CHR 0x0A] '' '' superseeds_text;
                  pieces = split (CHR 0x0A) replaced;
                  superseeds_list =
                    (if pieces \<noteq> [] then
                       map (replace [CHR 0x0D] []) (filter (\<lambda>x. x \<noteq> []) (map strip pieces))
                     else pieces)
              in if superseeds_list \<noteq> [] then PList (map PStr superseeds_list) else PStr replaced)
           else PStr superseeds_text))"

text \<open>A download link of an update: its URL and the path the URL parser finds in it.\<close>

record wu_download_info =
  dl_url :: string
  dl_path :: string

text \<open>
  A \<open>WindowsUpdate\<close> object: the cells of its result row, and what its detail page gives.
  The KB marker and the \<open>supersedesInfo\<close> container are kept as found; the other
  properties only read the page through the HTML library and are kept as their outcome, a
  value or the exception raised.
\<close>

record windows_update =
  wu_title :: string
  wu_products :: "string list"
  wu_classification :: string
  wu_last_updated :: string
  wu_version :: string
  wu_size :: string
  wu_id :: string
  wu_kb_marker :: "node list option"
  wu_supersedes_info :: "string option"
  wu_languages :: "py_error + pyval"
  wu_msrc_number :: "py_error + pyval"
  wu_msrc_severity :: "py_error + pyval"
  wu_architecture :: "py_error + pyval"
  wu_is_installable :: "py_error + pyval"
  wu_requires_connectivity :: "py_error + pyval"
  wu_requires_user_input :: "py_error + pyval"
  wu_requires_restart :: "py_error + pyval"
  wu_more_information :: "py_error + pyval"
  wu_descriptions :: "py_error + pyval"
  wu_support_url :: "py_error + pyval"
  wu_download_urls :: "py_error + wu_download_info list"

text \<open>The property \<open>product\<close> is \<open>products[0]\<close>.\<close>

definition product :: "windows_update \<Rightarrow> py_error + string" where
  "product u = (case wu_products u of [] \<Rightarrow> Inl IndexError | p # ps \<Rightarrow> Inr p)"

definition kb_value :: "int list option \<Rightarrow> pyval" where
  "kb_value kb = (case kb of None \<Rightarrow> PNone | Some ks \<Rightarrow> PList (map PInt ks))"

definition and_then :: "'e + 'a \<Rightarrow> ('a \<Rightarrow> 'e + 'b) \<Rightarrow> 'e + 'b" where
  "and_then r f = (case r of Inl e \<Rightarrow> Inl e | Inr x \<Rightarrow> f x)"

definition download_entry :: "wu_download_info \<Rightarrow> pyval" where
  "download_entry download =
     PDict [(''file_name'', PStr (last (split CHR ''/'' (dl_path download)))),
            (''download_link'', PStr (dl_url download))]"

text \<open>
  The dictionary \<open>update_details\<close> of one update, its entries evaluated in the order of the
  source; the second access to \<open>kb_numbers\<close> sees the value the first one cached.
\<close>

definition update_details :: "windows_update \<Rightarrow> py_error + (string \<times> pyval) list" where
  "update_details u =
     and_then (kb_numbers None (wu_kb_marker u)) (\<lambda>kb.
     and_then (kb_numbers kb (wu_kb_marker u)) (\<lambda>kb_number.
     and_then (wu_languages u) (\<lambda>languages.
     and_then (wu_msrc_number u) (\<lambda>msrc_number.
     and_then (wu_msrc_severity u) (\<lambda>msrc_severity.
     and_then (product u) (\<lambda>first_product.
     and_then (wu_architecture u) (\<lambda>architecture.
     and_then (wu_is_installable u) (\<lambda>is_installable.
     and_then (wu_requires_connectivity u) (\<lambda>requires_connectivity.
     and_then (wu_requires_user_input u) (\<lambda>requires_user_input.
     and_then (wu_requires_restart u) (\<lambda>requires_restart.
     and_then (wu_more_information u) (\<lambda>more_information.
     and_then (wu_descriptions u) (\<lambda>descriptions.
     and_then (wu_support_url u) (\<lambda>support_url.
     and_then (wu_download_urls u) (\<lambda>downloads.
       Inr [(''kb'', kb_value kb),
            (''title'', PStr (wu_title u)),
            (''update_id'', PStr (wu_id u)),
            (''kb_number'', kb_value kb_number),
            (''version'', PStr (wu_version u)),
            (''last_updated'', PStr (wu_last_updated u)),
            (''classification'', PStr (wu_classification u)),
            (''languages'', languages),
            (''superseeds'', superseeds (wu_supersedes_info u)),
            (''msrc_number'', msrc_number),
            (''msrc_severity'', msrc_severity),
            (''products_applicable'',
               PStr (if first_product \<noteq> [] then lower first_product else [])),
            (''architecture'', architecture),
            (''uninstallable'', is_installable),
            (''requires_connectivity'', requires_connectivity),
            (''requires_user_input'', requires_user_input),
            (''requires_restart'', requires_restart),
            (''update_size'', PStr (wu_size u)),
            (''more_info'', more_information),
            (''description'', descriptions),
            (''support_url'', support_url),
            (''download_urls'', PList (map download_entry downloads))])))))))))))))))"

text \<open>
  \<open>title == super_seed\<close> with the title, a text, on the left: a text equals only the same
  text, and never a list.
\<close>

definition py_eq :: "pyval \<Rightarrow> pyval \<Rightarrow> bool" where
  "py_eq title super_seed = (case title of PStr t \<Rightarrow> super_seed = PStr t | _ \<Rightarrow> title = super_seed)"

text \<open>
  The first loop of \<open>find_microsoft_catelogue_updates\<close>, with the list of records and the
  list \<open>super_seeds_list\<close> it fills by \<open>append\<close>.
\<close>

fun scan_updates ::
    "windows_update list \<Rightarrow> (string \<times> pyval) list list \<Rightarrow> pyval list
       \<Rightarrow> py_error + (string \<times> pyval) list list \<times> pyval list" where
  "scan_updates [] updates super_seeds_list = Inr (updates, super_seeds_list)"
| "scan_updates (u # rest) updates super_seeds_list =
     (case update_details u of
        Inl e \<Rightarrow> Inl e
      | Inr details \<Rightarrow>
          scan_updates rest (updates @ [details])
            (if truthy (dict_get details ''title'') \<and> truthy (dict_get details ''superseeds'')
             then super_seeds_list @ [dict_get details ''superseeds'']
             else super_seeds_list))"

text \<open>The inner loop of the second pass: is the title equal to an element of the list?\<close>

definition super_seed_found :: "pyval list \<Rightarrow> (string \<times> pyval) list \<Rightarrow> bool" where
  "super_seed_found super_seeds_list update =
     list_ex (\<lambda>super_seed. py_eq (dict_get update ''title'') super_seed) super_seeds_list"

text \<open>
  The function gets the updates the catalog search yields. It returns \<open>None\<close> on an
  exception and when there is no update.
\<close>

definition find_microsoft_catelogue_updates ::
    "windows_update list \<Rightarrow> (string \<times> pyval) list list option" where
  "find_microsoft_catelogue_updates found =
     (case scan_updates found [] [] of
        Inl e \<Rightarrow> None
      | Inr (updates, super_seeds_list) \<Rightarrow>
          if updates \<noteq> [] then
            Some (filter (\<lambda>update. \<not> super_seed_found super_seeds_list update) updates)
          else None)"

section \<open>Notions used in the statements\<close>

text \<open>
  The digits that follow the first \<open>kb\<close> of a text, whatever the case of its letters;
  empty when the text has no \<open>kb\<close>.
\<close>

definition kb_digits :: "string \<Rightarrow> string" where
  "kb_digits s = (case digits_after_kb (lower s) of Inl e \<Rightarrow> [] | Inr ds \<Rightarrow> ds)"

text \<open>The twenty keys that the records of both paths share.\<close>

definition fixed_keys :: "string list" where
  "fixed_keys =
     [''kb'', ''title'', ''version'', ''last_updated'', ''classification'', ''languages'',
      ''superseeds'', ''msrc_number'', ''msrc_severity'', ''products_applicable'',
      ''architecture'', ''uninstallable'', ''requires_connectivity'', ''requires_user_input'',
      ''requires_restart'', ''update_size'', ''more_info'', ''description'', ''support_url'',
      ''download_urls'']"

text \<open>
  The entries of a text: the text split on newlines, each piece stripped of surrounding
  whitespace and of carriage returns, the empty pieces dropped.
\<close>

definition supersedes_entries :: "string \<Rightarrow> string list" where
  "supersedes_entries s =
     map (replace [CHR 0x0D] []) (filter (\<lambda>x. x \<noteq> []) (map strip (split (CHR 0x0A) s)))"

text \<open>
  An update with a given title and a given \<open>supersedesInfo\<close> text, on a detail page
  whose other fields all resolve, with one download link.
\<close>

definition sample_update :: "string \<Rightarrow> string option \<Rightarrow> windows_update" where
  "sample_update title info =
     \<lparr>wu_title = title,
      wu_products = [''Windows 10''],
      wu_classification = ''Security Updates'',
      wu_last_updated = ''2019-12-10 00:00:00'',
      wu_version = ''n/a'',
      wu_size = ''1.0 MB'',
      wu_id = ''11111111-2222-3333-4444-555555555555'',
      wu_kb_marker = Some [Text ''4530684''],
      wu_supersedes_info = info,
      wu_languages = Inr (PStr ''all''),
      wu_msrc_number = Inr PNone,
      wu_msrc_severity = Inr PNone,
      wu_architecture = Inr (PStr ''AMD64''),
      wu_is_installable = Inr (PBool True),
      wu_requires_connectivity = Inr (PStr ''No''),
      wu_requires_user_input = Inr (PStr ''No''),
      wu_requires_restart = Inr (PStr ''Yes''),
      wu_more_information = Inr (PStr ''https://support.microsoft.com/help/4530684''),
      wu_descriptions = Inr (PStr ''Install this update.''),
      wu_support_url = Inr (PStr ''https://support.microsoft.com''),
      wu_download_urls = Inr [\<lparr>dl_url = ''https://catalog.s.download.windowsupdate.com/d/a.msu'',
                                dl_path = ''/d/a.msu''\<rparr>]\<rparr>"

text \<open>A download-center page with a given title and file list, whose parts all decode.\<close>

definition sample_page :: "string \<Rightarrow> descriptor list \<Rightarrow> download_page" where
  "sample_page title files =
     \<lparr>canonical_link = Some (PStr ''https://www.microsoft.com/en-us/download/details.aspx?id=1''),
      has_details = True,
      download_file = Some files,
      download_title = Some (PStr title),
      download_description = Some (PStr ''An update.''),
      operating_system = Some (PStr ''Windows 10'')\<rparr>"

section \<open>Version and publication date come from the first descriptor\<close>

text \<open>
  Claim C10. For a non-empty list of download descriptors, \<open>get_version_number\<close> returns
  the \<open>version\<close> entry of the first descriptor and \<open>get_last_updated\<close> its
  \<open>datePublished\<close> entry, whatever the later descriptors hold; for the empty list both
  return \<open>None\<close>.
\<close>

theorem first_descriptor_decides:
  "get_version_number (d # ds) = dict_get d ''version''
   \<and> get_last_updated (d # ds) = dict_get d ''datePublished''
   \<and> get_version_number (d # ds) = get_version_number [d]
   \<and> get_last_updated (d # ds) = get_last_updated [d]
   \<and> get_version_number [] = PNone
   \<and> get_last_updated [] = PNone"
  by simp

section \<open>Rounding to a float\<close>

text \<open>
  The bit length brackets a number between two powers of two; from this follow the two
  facts about rounding that the size conversion needs: rounding never moves a number
  across \<open>2 ^ p\<close> for \<open>p\<close> up to 53, and it reaches \<open>2 ^ P\<close> exactly from half a unit in
  the last place below it.
\<close>

lemma bit_length_upper: "n < 2 ^ bit_length n"
proof (induction n rule: bit_length.induct)
  case (1 n)
  show ?case
  proof (cases "n = 0")
    case True
    then show ?thesis by (simp add: bit_length.simps)
  next
    case False
    with 1 have "n div 2 < 2 ^ bit_length (n div 2)" by simp
    then have "n < 2 * 2 ^ bit_length (n div 2)" by linarith
    with False show ?thesis by (simp add: bit_length.simps [of n])
  qed
qed

lemma bit_length_lower: "0 < n \<Longrightarrow> 2 ^ (bit_length n - 1) \<le> n"
proof (induction n rule: bit_length.induct)
  case (1 n)
  show ?case
  proof (cases "n div 2 = 0")
    case True
    with 1 have "n = 1" by linarith
    then show ?thesis by (simp add: bit_length.simps [of "Suc 0"] bit_length.simps [of 0])
  next
    case False
    with 1 have ih: "2 ^ (bit_length (n div 2) - 1) \<le> n div 2" by simp
    from False have "0 < bit_length (n div 2)" by (simp add: bit_length.simps [of "n div 2"])
    then have "(2::nat) ^ bit_length (n div 2) = 2 * 2 ^ (bit_length (n div 2) - 1)"
      by (cases "bit_length (n div 2)") simp_all
    with ih have "2 ^ bit_length (n div 2) \<le> n" by linarith
    with 1 show ?thesis by (simp add: bit_length.simps [of n])
  qed
qed

lemma bit_length_le_iff: "bit_length n \<le> k \<longleftrightarrow> n < 2 ^ k"
proof
  assume "bit_length n \<le> k"
  then have "(2::nat) ^ bit_length n \<le> 2 ^ k" by simp
  with bit_length_upper [of n] show "n < 2 ^ k" by linarith
next
  assume lt: "n < 2 ^ k"
  show "bit_length n \<le> k"
  proof (rule ccontr)
    assume "\<not> bit_length n \<le> k"
    then have k: "k \<le> bit_length n - 1" and pos: "0 < bit_length n" by simp_all
    from pos have "0 < n" by (cases "n = 0") (simp_all add: bit_length.simps [of 0])
    then have "2 ^ (bit_length n - 1) \<le> n" by (rule bit_length_lower)
    moreover from k have "(2::nat) ^ k \<le> 2 ^ (bit_length n - 1)" by simp
    ultimately show False using lt by linarith
  qed
qed


lemma round_small: "n < 2 ^ 53 \<Longrightarrow> round_to_double n = n"
  by (simp add: round_to_double_def bit_length_le_iff)

lemma round_lower: "2 ^ 53 \<le> n \<Longrightarrow> 2 ^ (bit_length n - 1) \<le> round_to_double n"
proof -
  assume big: "2 ^ 53 \<le> n"
  define b where "b = bit_length n"
  define s where "s = b - 53"
  from big have b54: "53 < b" unfolding b_def using bit_length_le_iff [of n 53] by simp
  have low: "2 ^ (b - 1) \<le> n" unfolding b_def using big by (intro bit_length_lower) simp
  have e: "b - 1 = 52 + s" using b54 by (simp add: s_def)
  have split: "(2::nat) ^ (b - 1) = 2 ^ 52 * 2 ^ s"
    unfolding e by (rule power_add)
  have q: "2 ^ 52 \<le> n div 2 ^ s"
  proof -
    have "2 ^ 52 * 2 ^ s div 2 ^ s \<le> n div 2 ^ s"
      using low split by (intro div_le_mono) simp
    then show ?thesis by simp
  qed
  then have "2 ^ 52 * 2 ^ s \<le> n div 2 ^ s * 2 ^ s" by simp
  moreover have "n div 2 ^ s * 2 ^ s \<le> (n div 2 ^ s + 1) * 2 ^ s" by simp
  ultimately show ?thesis
    using b54 split by (simp add: round_to_double_def Let_def flip: b_def s_def)
qed

lemma round_upper: "round_to_double n \<le> 2 ^ bit_length n"
proof (cases "bit_length n \<le> 53")
  case True
  then show ?thesis using bit_length_upper [of n] by (simp add: round_to_double_def)
next
  case False
  define b where "b = bit_length n"
  define s where "s = b - 53"
  from False have b54: "53 < b" by (simp add: b_def)
  have e: "b = 53 + s" using b54 by (simp add: s_def)
  have split: "(2::nat) ^ b = 2 ^ 53 * 2 ^ s"
    by (subst e) (rule power_add)
  have "n < 2 ^ 53 * 2 ^ s" using bit_length_upper [of n] split by (simp add: b_def)
  then have "n div 2 ^ s < 2 ^ 53"
    by (simp add: less_mult_imp_div_less)
  then have "n div 2 ^ s + 1 \<le> 2 ^ 53" by simp
  then have "(n div 2 ^ s + 1) * 2 ^ s \<le> 2 ^ 53 * 2 ^ s" by (rule mult_le_mono1)
  moreover have "n div 2 ^ s * 2 ^ s \<le> (n div 2 ^ s + 1) * 2 ^ s" by simp
  ultimately show ?thesis
    using b54 split by (simp add: round_to_double_def Let_def flip: b_def s_def)
qed

lemma round_threshold: "p \<le> 53 \<Longrightarrow> 2 ^ p \<le> round_to_double n \<longleftrightarrow> 2 ^ p \<le> n"
proof (cases "n < 2 ^ 53")
  case True
  then show ?thesis by (simp add: round_small)
next
  case False
  assume p: "p \<le> 53"
  from False have big: "2 ^ 53 \<le> n" by simp
  then have "53 < bit_length n" using bit_length_le_iff [of n 53] by simp
  then have "p \<le> bit_length n - 1" using p by simp
  then have "(2::nat) ^ p \<le> 2 ^ (bit_length n - 1)" by simp
  with round_lower [OF big] have "2 ^ p \<le> round_to_double n" by linarith
  moreover from p have "(2::nat) ^ p \<le> 2 ^ 53" by (intro power_increasing) simp_all
  with big have "2 ^ p \<le> n" by linarith
  ultimately show ?thesis by simp
qed


lemma round_overflow:
  assumes P: "54 \<le> P"
  shows "2 ^ P \<le> round_to_double n \<longleftrightarrow> 2 ^ P - 2 ^ (P - 54) \<le> n"
proof -
  define b where "b = bit_length n"
  have pw: "(2::nat) ^ P = 2 * 2 ^ (P - 1)"
    using P by (cases P) simp_all
  have hp: "(2::nat) ^ (P - 54) \<le> 2 ^ (P - 1)"
    by (intro power_increasing) simp_all
  consider (above) "P < b" | (below) "b < P" | (same) "b = P" by linarith
  then show ?thesis
  proof cases
    case above
    with P have "\<not> b \<le> 53" by simp
    then have big: "2 ^ 53 \<le> n" unfolding b_def using bit_length_le_iff [of n 53] by simp
    from above have le: "(2::nat) ^ P \<le> 2 ^ (b - 1)" by (intro power_increasing) simp_all
    have "2 ^ (b - 1) \<le> round_to_double n"
      unfolding b_def using big by (rule round_lower)
    with le have l: "2 ^ P \<le> round_to_double n" by linarith
    have "2 ^ (b - 1) \<le> n"
      unfolding b_def using big by (intro bit_length_lower) simp
    with le have "2 ^ P - 2 ^ (P - 54) \<le> n" by linarith
    with l show ?thesis by simp
  next
    case below
    then have le: "(2::nat) ^ b \<le> 2 ^ (P - 1)" by (intro power_increasing) simp_all
    have pos: "0 < (2::nat) ^ (P - 1)" by simp
    have "round_to_double n \<le> 2 ^ b" unfolding b_def by (rule round_upper)
    with le pw pos have l: "\<not> 2 ^ P \<le> round_to_double n" by linarith
    have "n < 2 ^ b" unfolding b_def by (rule bit_length_upper)
    with le pw hp have "\<not> 2 ^ P - 2 ^ (P - 54) \<le> n" by linarith
    with l show ?thesis by simp
  next
    case same
    define s where "s = P - 53"
    define M where "M = (2::nat) ^ 53"
    define K where "K = (2::nat) ^ s"
    define h where "h = (2::nat) ^ (P - 54)"
    define q where "q = n div K"
    define r where "r = n mod K"
    have Mpos: "0 < M" and Modd: "odd (M - 1)" by (simp_all add: M_def)
    have e: "P = 53 + s" using P by (simp add: s_def)
    have PMK: "(2::nat) ^ P = M * K" unfolding M_def K_def by (subst e) (rule power_add)
    have e2: "s = Suc (P - 54)" using P by (simp add: s_def)
    have Kh: "K = 2 * h" unfolding K_def h_def by (subst e2) simp
    have hpos: "0 < h" by (simp add: h_def)
    have Kpos: "0 < K" by (simp add: K_def)
    have n: "n = q * K + r" by (simp add: q_def r_def)
    have rK: "r < K" unfolding r_def K_def by simp
    have "n < M * K" using bit_length_upper [of n] same PMK by (simp add: b_def)
    then have qM: "q < M" unfolding q_def by (simp add: less_mult_imp_div_less)
    have b53: "\<not> bit_length n \<le> 53" using same P by (simp add: b_def)
    have sb: "bit_length n - 53 = s" using same by (simp add: b_def s_def)
    have s1: "s - 1 = P - 54" using e2 by simp
    have rd: "round_to_double n = (if h < r \<or> (r = h \<and> odd q) then (q + 1) * K else q * K)"
      unfolding round_to_double_def Let_def sb s1 q_def r_def K_def h_def
      by (simp only: b53 if_False)
    show ?thesis
    proof (cases "q = M - 1")
      case True
      then have oq: "odd q" using Modd by simp
      have q1: "q + 1 = M" using True Mpos by simp
      have lhs: "2 ^ P \<le> round_to_double n \<longleftrightarrow> h \<le> r"
      proof (cases "h \<le> r")
        case True
        then have "h < r \<or> (r = h \<and> odd q)" using oq by auto
        then have "round_to_double n = (q + 1) * K" unfolding rd by (rule if_P)
        then have "round_to_double n = M * K" unfolding q1 .
        then show ?thesis using True by (simp add: PMK)
      next
        case False
        then have "\<not> (h < r \<or> (r = h \<and> odd q))" by auto
        then have "round_to_double n = q * K" unfolding rd by (rule if_not_P)
        moreover have "q * K < M * K" using qM Kpos by (rule mult_less_mono1)
        ultimately show ?thesis using False by (simp add: PMK)
      qed
      have "M * K = q * K + K" using q1 by (metis add_mult_distrib mult_1)
      then have "M * K - h = q * K + h" using Kh by simp
      then have rhs: "2 ^ P - 2 ^ (P - 54) \<le> n \<longleftrightarrow> h \<le> r"
        unfolding PMK using n by (simp flip: h_def)
      from lhs rhs show ?thesis by simp
    next
      case False
      with qM have "q + 1 < M" by simp
      then have "(q + 1) * K < M * K" using Kpos by (rule mult_less_mono1)
      moreover have "round_to_double n \<le> (q + 1) * K" unfolding rd by simp
      ultimately have lhs: "\<not> 2 ^ P \<le> round_to_double n"
        unfolding PMK by linarith
      from \<open>q + 1 < M\<close> have "q + 2 \<le> M" by simp
      then have "(q + 2) * K \<le> M * K" by (rule mult_le_mono1)
      then have "q * K + 2 * K \<le> M * K" by (simp add: add_mult_distrib)
      then have "n + h < M * K" using n rK Kh hpos by linarith
      then have "\<not> M * K - h \<le> n" by linarith
      then have rhs: "\<not> 2 ^ P - 2 ^ (P - 54) \<le> n" by (simp add: PMK flip: h_def)
      from lhs rhs show ?thesis by simp
    qed
  qed
qed


lemma true_divide_cases:
  "true_divide n k =
     (if 2 ^ (1024 + k) - 2 ^ (970 + k) \<le> \<bar>n\<bar> then Inl OverflowError
      else Inr (nearest_float n k))"
proof -
  have "(2 ^ (1024 + k) \<le> round_to_double (nat \<bar>n\<bar>))
      = (2 ^ (1024 + k) - 2 ^ (1024 + k - 54) \<le> nat \<bar>n\<bar>)"
    by (rule round_overflow) simp
  also have "1024 + k - 54 = 970 + k" by simp
  also have "((2::nat) ^ (1024 + k) - 2 ^ (970 + k) \<le> nat \<bar>n\<bar>)
      = (int (2 ^ (1024 + k) - 2 ^ (970 + k)) \<le> \<bar>n\<bar>)"
    by linarith
  also have "int (2 ^ (1024 + k) - 2 ^ (970 + k)) = 2 ^ (1024 + k) - 2 ^ (970 + k)"
    by (subst of_nat_diff) (simp_all add: power_increasing)
  finally show ?thesis by (simp add: true_divide_def)
qed

lemma gigabyte_test: "float_ge (nearest_float n 30) 1 = (2 ^ 30 \<le> n)"
proof (cases "0 < n")
  case True
  have "float_ge (nearest_float n 30) 1 = (int (2 ^ 30) \<le> int (round_to_double (nat n)))"
    using True by (simp add: nearest_float_def)
  also have "\<dots> = (2 ^ 30 \<le> round_to_double (nat n))"
    by (rule of_nat_le_iff)
  also have "\<dots> = (2 ^ 30 \<le> nat n)"
    by (rule round_threshold) simp
  also have "\<dots> = (2 ^ 30 \<le> n)" using True by (simp add: le_nat_iff)
  finally show ?thesis .
next
  case False
  then have "sgn n * int (round_to_double (nat \<bar>n\<bar>)) \<le> 0"
    by (simp add: sgn_if)
  with False show ?thesis by (simp add: nearest_float_def)
qed

lemma convert_cases:
  "convert_bytes_to_human_readable n 1 =
     (if n \<le> - (2 ^ 1044 - 2 ^ 990) \<or> 2 ^ 1054 - 2 ^ 1000 \<le> n then Inl OverflowError
      else if 2 ^ 30 \<le> n then Inr (format_2f (nearest_float n 30) @ '' GB'')
      else Inr (format_2f (nearest_float n 20) @ '' MB''))"
proof -
  define A :: int where "A = 2 ^ 1054 - 2 ^ 1000"
  define B :: int where "B = 2 ^ 1044 - 2 ^ 990"
  define T :: int where "T = 2 ^ 30"
  have AB: "B \<le> A" and BT: "T < B" and T0: "0 < T" by (simp_all add: A_def B_def T_def)
  have gb: "true_divide n 30 = (if A \<le> \<bar>n\<bar> then Inl OverflowError else Inr (nearest_float n 30))"
    unfolding A_def by (simp add: true_divide_cases [of n 30])
  have mb: "true_divide n 20 = (if B \<le> \<bar>n\<bar> then Inl OverflowError else Inr (nearest_float n 20))"
    unfolding B_def by (simp add: true_divide_cases [of n 20])
  have test: "float_ge (nearest_float n 30) 1 = (T \<le> n)"
    unfolding T_def by (rule gigabyte_test)
  have "convert_bytes_to_human_readable n 1 =
     (if n \<le> - B \<or> A \<le> n then Inl OverflowError
      else if T \<le> n then Inr (format_2f (nearest_float n 30) @ '' GB'')
      else Inr (format_2f (nearest_float n 20) @ '' MB''))"
  proof (cases "A \<le> \<bar>n\<bar>")
    case True
    with AB have "n \<le> - B \<or> A \<le> n" by linarith
    with True show ?thesis by (simp add: convert_bytes_to_human_readable_def gb)
  next
    case nA: False
    show ?thesis
    proof (cases "T \<le> n")
      case True
      with nA BT T0 have "\<not> (n \<le> - B \<or> A \<le> n)" by linarith
      with nA True show ?thesis
        by (simp add: convert_bytes_to_human_readable_def gb test)
    next
      case False
      with BT AB nA have "(B \<le> \<bar>n\<bar>) = (n \<le> - B \<or> A \<le> n)" by linarith
      with nA False show ?thesis
        by (simp add: convert_bytes_to_human_readable_def gb mb test)
    qed
  qed
  then show ?thesis unfolding A_def B_def T_def .
qed

text \<open>A number below \<open>2 ^ 53\<close> is its own nearest float numerator.\<close>

lemma nearest_float_small: "\<bar>n\<bar> < 2 ^ 53 \<Longrightarrow> nearest_float n k = Dyadic n k"
proof -
  assume "\<bar>n\<bar> < 2 ^ 53"
  then have "nat \<bar>n\<bar> < 2 ^ 53" by (simp add: nat_less_iff)
  then have "round_to_double (nat \<bar>n\<bar>) = nat \<bar>n\<bar>" by (rule round_small)
  then show ?thesis by (simp add: nearest_float_def sgn_if)
qed

lemmas text_eval =
  dict_get_def dict_item_def starts_with_def strip_def strip_with_def isspace_def lower_def
  lower_char_def capitals_def small_letters_def digits_after_kb_def isdigit_def isdecimal_def
  digit_value_def int_of_str_def int_space_def

section \<open>The size conversion\<close>

text \<open>
  Claim C4, amended. \<open>convert_bytes_to_human_readable(1073741824)\<close> is \<open>1.00 GB\<close> and
  \<open>convert_bytes_to_human_readable(1048576)\<close> is \<open>1.00 MB\<close>. For a byte count \<open>n\<close> above
  \<open>- (2 ^ 1044 - 2 ^ 990)\<close> and below \<open>2 ^ 1054 - 2 ^ 1000\<close> the gigabyte branch is taken
  exactly when \<open>n\<close> is at least \<open>2 ^ 30\<close>, and the megabyte branch otherwise. Outside
  that range the division leaves the floats and the call raises OverflowError.
\<close>

theorem size_conversion:
  "convert_bytes_to_human_readable 1073741824 1 = Inr ''1.00 GB''
   \<and> convert_bytes_to_human_readable 1048576 1 = Inr ''1.00 MB''
   \<and> (\<forall>n. convert_bytes_to_human_readable n 1 =
        (if n \<le> - (2 ^ 1044 - 2 ^ 990) \<or> 2 ^ 1054 - 2 ^ 1000 \<le> n then Inl OverflowError
         else if 2 ^ 30 \<le> n then Inr (format_2f (nearest_float n 30) @ '' GB'')
         else Inr (format_2f (nearest_float n 20) @ '' MB'')))"
proof (intro conjI allI)
  show "convert_bytes_to_human_readable 1073741824 1 = Inr ''1.00 GB''"
    by (simp add: convert_cases nearest_float_small str_nat.simps)
  show "convert_bytes_to_human_readable 1048576 1 = Inr ''1.00 MB''"
    by (simp add: convert_cases nearest_float_small str_nat.simps)
qed (rule convert_cases)

text \<open>The conversion at five mebibytes and at the last byte count below one gibibyte.\<close>

theorem size_conversion_witness:
  "convert_bytes_to_human_readable 5242880 1 = Inr ''5.00 MB''
   \<and> convert_bytes_to_human_readable 1073741823 1 = Inr ''1024.00 MB''"
  using size_conversion by (simp add: nearest_float_small str_nat.simps)

text \<open>
  The claim as stated fails at the byte count \<open>2 ^ 1054\<close>: it is at least \<open>2 ^ 30\<close>, and
  no branch is taken.
\<close>

theorem size_conversion_overflow:
  "(2::int) ^ 30 \<le> 2 ^ 1054
   \<and> convert_bytes_to_human_readable (2 ^ 1054) 1 = Inl OverflowError"
  by (simp add: convert_cases)

section \<open>The total size of an update\<close>

lemma sum_sizes_all:
  "\<forall>d \<in> set ds. \<exists>n. py_int (dict_get d ''size'') = Inr n
     \<Longrightarrow> sum_sizes acc ds = Inr (acc + sum_list (map size_of ds))"
proof (induction ds arbitrary: acc)
  case Nil
  then show ?case by simp
next
  case (Cons d ds)
  then obtain n where n: "py_int (dict_get d ''size'') = Inr n" by auto
  then have "size_of d = n" by (simp add: size_of_def)
  with Cons n show ?case by simp
qed

lemma sum_sizes_some:
  "\<exists>d \<in> set ds. \<exists>e. py_int (dict_get d ''size'') = Inl e \<Longrightarrow> \<exists>e. sum_sizes acc ds = Inl e"
proof (induction ds arbitrary: acc)
  case Nil
  then show ?case by simp
next
  case (Cons d ds)
  show ?case
  proof (cases "py_int (dict_get d ''size'')")
    case (Inl e)
    then show ?thesis by simp
  next
    case (Inr n)
    with Cons.prems have "\<exists>d \<in> set ds. \<exists>e. py_int (dict_get d ''size'') = Inl e" by auto
    then have "\<exists>e. sum_sizes (acc + n) ds = Inl e" by (rule Cons.IH)
    with Inr show ?thesis by simp
  qed
qed

text \<open>
  Claim C5. When \<open>int\<close> accepts the size of every descriptor, \<open>get_update_size\<close> returns
  the rendering of the sum of the sizes, in gigabytes when the sum is at least
  \<open>2 ^ 30\<close> and in megabytes otherwise, and \<open>N/A\<close> when the division of the sum fails.
  When \<open>int\<close> rejects the size of some descriptor, and so when a descriptor has no size,
  it returns \<open>N/A\<close>.
\<close>

theorem update_size_rendering:
  "((\<forall>d \<in> set ds. \<exists>n. py_int (dict_get d ''size'') = Inr n) \<longrightarrow>
      get_update_size ds =
        (let total = sum_list (map size_of ds) in
         if total \<le> - (2 ^ 1044 - 2 ^ 990) \<or> 2 ^ 1054 - 2 ^ 1000 \<le> total then ''N/A''
         else if 2 ^ 30 \<le> total then format_2f (nearest_float total 30) @ '' GB''
         else format_2f (nearest_float total 20) @ '' MB''))
   \<and> ((\<exists>d \<in> set ds. \<exists>e. py_int (dict_get d ''size'') = Inl e) \<longrightarrow> get_update_size ds = ''N/A'')
   \<and> ((\<exists>d \<in> set ds. map_of d ''size'' = None) \<longrightarrow> get_update_size ds = ''N/A'')"
proof (intro conjI impI)
  assume "\<forall>d \<in> set ds. \<exists>n. py_int (dict_get d ''size'') = Inr n"
  then have "sum_sizes 0 ds = Inr (sum_list (map size_of ds))"
    using sum_sizes_all [of ds 0] by simp
  then show "get_update_size ds =
        (let total = sum_list (map size_of ds) in
         if total \<le> - (2 ^ 1044 - 2 ^ 990) \<or> 2 ^ 1054 - 2 ^ 1000 \<le> total then ''N/A''
         else if 2 ^ 30 \<le> total then format_2f (nearest_float total 30) @ '' GB''
         else format_2f (nearest_float total 20) @ '' MB'')"
    unfolding get_update_size_def Let_def convert_cases by simp
next
  assume "\<exists>d \<in> set ds. \<exists>e. py_int (dict_get d ''size'') = Inl e"
  then obtain e where "sum_sizes 0 ds = Inl e" using sum_sizes_some by blast
  then show "get_update_size ds = ''N/A''" by (simp add: get_update_size_def)
next
  assume "\<exists>d \<in> set ds. map_of d ''size'' = None"
  then obtain d where d: "d \<in> set ds" "map_of d ''size'' = None" by blast
  then have "py_int (dict_get d ''size'') = Inl TypeError" by (simp add: dict_get_def)
  with d have "\<exists>d \<in> set ds. \<exists>e. py_int (dict_get d ''size'') = Inl e" by blast
  then obtain e where "sum_sizes 0 ds = Inl e" using sum_sizes_some by blast
  then show "get_update_size ds = ''N/A''" by (simp add: get_update_size_def)
qed

text \<open>
  Two files of one gibibyte and of five bytes; two files of which the second has no size;
  one file whose size is not a number.
\<close>

theorem update_size_rendering_witness:
  "get_update_size [[(''size'', PStr ''1073741824'')], [(''size'', PInt 5)]] = ''1.00 GB''
   \<and> get_update_size [[(''size'', PStr ''12'')], [(''name'', PStr ''a.exe'')]] = ''N/A''
   \<and> get_update_size [[(''size'', PStr ''12 MB'')]] = ''N/A''"
proof -
  let ?ds = "[[(''size'', PStr ''1073741824'')], [(''size'', PInt 5)]]"
  have a: "py_int (dict_get [(''size'', PStr ''1073741824'')] ''size'') = Inr 1073741824"
    by (simp add: text_eval)
  have b: "py_int (dict_get [(''size'', PInt 5)] ''size'') = Inr 5"
    by (simp add: text_eval)
  have all: "\<forall>d \<in> set ?ds. \<exists>n. py_int (dict_get d ''size'') = Inr n"
    using a b by simp
  have total: "sum_list (map size_of ?ds) = 1073741829"
    using a b by (simp add: size_of_def)
  have one: "get_update_size ?ds = ''1.00 GB''"
    using update_size_rendering [of ?ds] all total
    by (simp add: nearest_float_small str_nat.simps)
  have "\<exists>d \<in> set [[(''size'', PStr ''12'')], [(''name'', PStr ''a.exe'')]]. map_of d ''size'' = None"
    by simp
  then have two: "get_update_size [[(''size'', PStr ''12'')], [(''name'', PStr ''a.exe'')]] = ''N/A''"
    using update_size_rendering [of "[[(''size'', PStr ''12'')], [(''name'', PStr ''a.exe'')]]"]
    by blast
  have "py_int (dict_get [(''size'', PStr ''12 MB'')] ''size'') = Inl ValueError"
    by (simp add: text_eval)
  then have "\<exists>d \<in> set [[(''size'', PStr ''12 MB'')]]. \<exists>e. py_int (dict_get d ''size'') = Inl e"
    by simp
  then have three: "get_update_size [[(''size'', PStr ''12 MB'')]] = ''N/A''"
    using update_size_rendering [of "[[(''size'', PStr ''12 MB'')]]"] by blast
  from one two three show ?thesis by simp
qed

section \<open>KB numbers of a detail page\<close>

lemma parse_digits_rejects:
  "c \<in> set s \<Longrightarrow> \<not> isdecimal c \<Longrightarrow> c \<noteq> CHR ''_'' \<Longrightarrow> parse_digits prev acc s = None"
  by (induction s arbitrary: prev acc) auto

lemma int_space_isspace: "int_space c \<Longrightarrow> isspace c"
  by (auto simp: int_space_def isspace_def)

lemma last_dropWhile: "dropWhile P xs \<noteq> [] \<Longrightarrow> last (dropWhile P xs) = last xs"
  by (induction xs) (auto split: if_splits)

text \<open>Text that \<open>strip\<close> has cleaned has no blank at either end for \<open>int\<close> to drop.\<close>

lemma strip_with_strip: "strip_with int_space (strip t) = strip t"
proof (cases "strip t = []")
  case True
  then show ?thesis by (simp add: strip_with_def)
next
  case False
  define xs where "xs = dropWhile isspace t"
  define ys where "ys = dropWhile isspace (rev xs)"
  have st: "strip t = rev ys" by (simp add: strip_def strip_with_def xs_def ys_def)
  with False have ys: "ys \<noteq> []" by simp
  then have xs: "xs \<noteq> []" by (auto simp: ys_def)
  have "\<not> isspace (hd ys)" using ys unfolding ys_def by (rule hd_dropWhile)
  then have endok: "\<not> int_space (last (rev ys))"
    using ys int_space_isspace by (auto simp: last_rev)
  have "last ys = last (rev xs)" using ys unfolding ys_def by (rule last_dropWhile)
  also have "\<dots> = hd xs" using xs by (simp add: last_rev)
  finally have "hd (rev ys) = hd xs" using ys by (simp add: hd_rev)
  moreover have "\<not> isspace (hd xs)" using xs unfolding xs_def by (rule hd_dropWhile)
  ultimately have startok: "\<not> int_space (hd (rev ys))" using int_space_isspace by auto
  have a: "dropWhile int_space (rev ys) = rev ys"
    using startok ys by (cases "rev ys") auto
  have b: "dropWhile int_space ys = ys"
    using endok ys by (cases ys) (auto simp: last_rev)
  show ?thesis unfolding st strip_with_def a by (simp add: b)
qed

lemma int_of_str_rejects:
  assumes "c \<in> set (strip t)" "\<not> isdecimal c" "c \<notin> set ''+-_''"
  shows "int_of_str (strip t) = Inl ValueError"
proof -
  from assms(1) obtain x xs where s: "strip t = x # xs" by (cases "strip t") auto
  from assms have whole: "parse_digits False 0 (x # xs) = None"
    by (intro parse_digits_rejects [of c]) (auto simp: s)
  have rest: "parse_digits False 0 xs = None" if "x = CHR ''-'' \<or> x = CHR ''+''"
    using assms that by (intro parse_digits_rejects [of c]) (auto simp: s)
  show ?thesis
    unfolding int_of_str_def strip_with_strip unfolding s using whole rest by auto
qed

text \<open>
  Claim C3. With no cached value and a KB marker followed by one text node: text that is
  \<open>n/a\<close> in any mix of cases, blanks around it aside, gives the empty list; the text
  \<open>4530684\<close> gives the list of the number 4530684; the text \<open>abc\<close>, and any text that
  is not \<open>n/a\<close> and holds a character other than a decimal digit, a sign or an
  underscore, raises ValueError. A page without the marker gives no list.
\<close>

theorem kb_numbers_parsing:
  "(lower (strip t) = ''n/a'' \<longrightarrow> kb_numbers None (Some [Text t]) = Inr (Some []))
   \<and> kb_numbers None (Some [Text ''4530684'']) = Inr (Some [4530684])
   \<and> kb_numbers None (Some [Text ''abc'']) = Inl ValueError
   \<and> (lower (strip t) \<noteq> ''n/a'' \<and> (\<exists>c \<in> set (strip t). \<not> isdecimal c \<and> c \<notin> set ''+-_'')
        \<longrightarrow> kb_numbers None (Some [Text t]) = Inl ValueError)
   \<and> kb_numbers None None = Inr None"
proof (intro conjI impI)
  assume na: "lower (strip t) = ''n/a''"
  then have "strip t \<noteq> []" by (auto simp: lower_def)
  with na show "kb_numbers None (Some [Text t]) = Inr (Some [])"
    by (simp add: kb_numbers_def)
next
  show "kb_numbers None (Some [Text ''4530684'']) = Inr (Some [4530684])"
    by (simp add: kb_numbers_def text_eval)
next
  show "kb_numbers None (Some [Text ''abc'']) = Inl ValueError"
    by (simp add: kb_numbers_def text_eval)
next
  assume h: "lower (strip t) \<noteq> ''n/a'' \<and> (\<exists>c \<in> set (strip t). \<not> isdecimal c \<and> c \<notin> set ''+-_'')"
  then obtain c where c: "c \<in> set (strip t)" "\<not> isdecimal c" "c \<notin> set ''+-_''" by blast
  then have "int_of_str (strip t) = Inl ValueError" by (rule int_of_str_rejects)
  moreover from c have "strip t \<noteq> []" by auto
  ultimately show "kb_numbers None (Some [Text t]) = Inl ValueError"
    using h by (simp add: kb_numbers_def)
next
  show "kb_numbers None None = Inr None" by (simp add: kb_numbers_def)
qed

text \<open>The marker text \<open>N/A\<close> between blanks, and the text \<open>KB4530684\<close>.\<close>

theorem kb_numbers_parsing_witness:
  "kb_numbers None (Some [Text '' N/A '']) = Inr (Some [])
   \<and> kb_numbers None (Some [Text ''KB4530684'']) = Inl ValueError"
proof -
  have a: "lower (strip '' N/A '') = ''n/a''" by (simp add: text_eval)
  have b: "lower (strip ''KB4530684'') \<noteq> ''n/a''
      \<and> (\<exists>c \<in> set (strip ''KB4530684''). \<not> isdecimal c \<and> c \<notin> set ''+-_'')"
    by (simp add: text_eval)
  from a b kb_numbers_parsing [of "'' N/A ''"] kb_numbers_parsing [of "''KB4530684''"]
  show ?thesis by blast
qed

section \<open>The architecture of an update\<close>

text \<open>
  Claim C6, amended. \<open>get_architecture\<close> goes through the descriptors in list order. A
  descriptor whose name contains none of \<open>64\<close>, \<open>32\<close> and \<open>86\<close> is passed over. The
  first other descriptor decides: the result is \<open>x64\<close> when its name contains \<open>64\<close>
  (so also for \<open>update-ia64.exe\<close>), and \<open>x86\<close> when its name contains \<open>32\<close> or
  \<open>86\<close> and not \<open>64\<close>. The result is \<open>None\<close> when the list ends before a descriptor
  decides, and when a descriptor without a name is reached.
\<close>

theorem architecture_first_match:
  "get_architecture [] = PNone
   \<and> (dict_get d ''name'' = PStr s \<and> contains ''64'' s \<longrightarrow> get_architecture (d # ds) = PStr ''x64'')
   \<and> (dict_get d ''name'' = PStr s \<and> \<not> contains ''64'' s \<and> (contains ''32'' s \<or> contains ''86'' s)
        \<longrightarrow> get_architecture (d # ds) = PStr ''x86'')
   \<and> (dict_get d ''name'' = PStr s \<and> \<not> contains ''64'' s \<and> \<not> contains ''32'' s \<and> \<not> contains ''86'' s
        \<longrightarrow> get_architecture (d # ds) = get_architecture ds)
   \<and> (map_of d ''name'' = None \<longrightarrow> get_architecture (d # ds) = PNone)
   \<and> get_architecture [[(''name'', PStr ''update-x64.exe'')]] = PStr ''x64''
   \<and> get_architecture [[(''name'', PStr ''update-x86.exe'')]] = PStr ''x86''
   \<and> get_architecture [[(''name'', PStr ''update-ia64.exe'')]] = PStr ''x64''"
proof (intro conjI impI)
  show "get_architecture [[(''name'', PStr ''update-x64.exe'')]] = PStr ''x64''"
    by (simp add: dict_get_def starts_with_def)
  show "get_architecture [[(''name'', PStr ''update-x86.exe'')]] = PStr ''x86''"
    by (simp add: dict_get_def starts_with_def)
  show "get_architecture [[(''name'', PStr ''update-ia64.exe'')]] = PStr ''x64''"
    by (simp add: dict_get_def starts_with_def)
  show "get_architecture (d # ds) = PNone" if "map_of d ''name'' = None"
    using that by (simp add: dict_get_def)
qed (auto simp: Let_def split: bool.splits)

text \<open>
  A file without a marker before a 32-bit file; a nameless descriptor before a 64-bit
  file.
\<close>

theorem architecture_first_match_witness:
  "get_architecture [[(''name'', PStr ''readme.txt'')], [(''name'', PStr ''setup32.exe'')]] = PStr ''x86''
   \<and> get_architecture [[(''url'', PStr ''u'')], [(''name'', PStr ''b64.exe'')]] = PNone"
proof -
  let ?a = "[(''name'', PStr ''readme.txt'')]" and ?b = "[(''name'', PStr ''setup32.exe'')]"
  have a: "dict_get ?a ''name'' = PStr ''readme.txt'' \<and> \<not> contains ''64'' ''readme.txt''
      \<and> \<not> contains ''32'' ''readme.txt'' \<and> \<not> contains ''86'' ''readme.txt''"
    by (simp add: dict_get_def starts_with_def)
  have b: "dict_get ?b ''name'' = PStr ''setup32.exe'' \<and> \<not> contains ''64'' ''setup32.exe''
      \<and> (contains ''32'' ''setup32.exe'' \<or> contains ''86'' ''setup32.exe'')"
    by (simp add: dict_get_def starts_with_def)
  have "get_architecture [?a, ?b] = get_architecture [?b]"
    using a architecture_first_match [of ?a "''readme.txt''" "[?b]"] by blast
  also have "\<dots> = PStr ''x86''"
    using b architecture_first_match [of ?b "''setup32.exe''" "[]"] by blast
  finally have one: "get_architecture [?a, ?b] = PStr ''x86''" .
  have "map_of [(''url'', PStr ''u'')] ''name'' = None" by simp
  then have "get_architecture [[(''url'', PStr ''u'')], [(''name'', PStr ''b64.exe'')]] = PNone"
    using architecture_first_match [of "[(''url'', PStr ''u'')]" _ "[[(''name'', PStr ''b64.exe'')]]"]
    by blast
  with one show ?thesis by simp
qed

text \<open>
  The claim as stated fails for a 32-bit file listed before a 64-bit file: a file name
  contains \<open>64\<close>, and the result is \<open>x86\<close>.
\<close>

theorem architecture_order_counterexample:
  "contains ''64'' ''b64.exe''
   \<and> get_architecture [[(''name'', PStr ''a32.exe'')], [(''name'', PStr ''b64.exe'')]] = PStr ''x86''"
  by (simp add: dict_get_def starts_with_def)

section \<open>Records of the download-center path\<close>

lemma index_found: "contains sub s \<Longrightarrow> \<exists>i. index s sub = Inr i"
  by (induction s) auto

lemma index_missing: "\<not> contains sub s \<Longrightarrow> index s sub = Inl ValueError"
  by (induction s) auto

lemma kb_digits_missing: "\<not> contains ''kb'' (lower t) \<Longrightarrow> kb_digits t = []"
  by (simp add: kb_digits_def digits_after_kb_def index_missing)

lemma title_kb_value:
  "title_kb t = Inr (if contains ''kb'' (lower t) then Some (PStr (kb_digits t)) else None)"
proof (cases "contains ''kb'' (lower t)")
  case True
  then obtain i where "index (lower t) ''kb'' = Inr i" using index_found by blast
  with True show ?thesis by (simp add: title_kb_def kb_digits_def digits_after_kb_def)
next
  case False
  then show ?thesis by (simp add: title_kb_def)
qed

lemma get_kb_number_name:
  "dict_get d ''name'' = PStr s \<Longrightarrow>
     get_kb_number (d # ds) =
       (if contains ''kb'' (lower s) then PStr (kb_digits s) else get_kb_number ds)"
proof (cases "contains ''kb'' (lower s)")
  case True
  assume n: "dict_get d ''name'' = PStr s"
  from True obtain i where "index (lower s) ''kb'' = Inr i" using index_found by blast
  with True n show ?thesis by (simp add: kb_digits_def digits_after_kb_def)
next
  case False
  assume "dict_get d ''name'' = PStr s"
  with False show ?thesis by simp
qed

text \<open>The value under \<open>kb\<close> after the title, the file names and the caller had their turn.\<close>

lemma derived_kb:
  fixes t :: string and files :: "descriptor list" and kb :: pyval
  defines "from_title \<equiv> (if contains ''kb'' (lower t) then Some (PStr (kb_digits t)) else None)"
  shows "(if \<not> truthy (get_kb (files_kb from_title files)) then kb
          else get_kb (files_kb from_title files))
       = (if kb_digits t \<noteq> [] then PStr (kb_digits t)
          else if truthy (get_kb_number files) then get_kb_number files
          else kb)"
proof -
  have "truthy (get_kb from_title) = (kb_digits t \<noteq> [])"
    by (simp add: from_title_def get_kb_def kb_digits_missing)
  moreover have "kb_digits t \<noteq> [] \<Longrightarrow> get_kb from_title = PStr (kb_digits t)"
    using kb_digits_missing [of t] by (auto simp: from_title_def get_kb_def)
  ultimately show ?thesis by (auto simp: files_kb_def get_kb_def)
qed

lemma product_update_elem:
  assumes "u \<in> set (get_microsoft_windows_product_update page)"
  shows "\<exists>t files. download_title page = Some (PStr t) \<and> download_file page = Some files
           \<and> pd_kb u = files_kb (if contains ''kb'' (lower t) then Some (PStr (kb_digits t)) else None) files"
proof -
  note d = get_microsoft_windows_product_update_def
  from assms have ne: "get_microsoft_windows_product_update page \<noteq> []" by auto
  obtain link where l: "canonical_link page = Some link"
    using ne by (cases "canonical_link page") (auto simp: d)
  have h: "has_details page"
    using ne l by (cases "has_details page") (auto simp: d)
  obtain files where f: "download_file page = Some files"
    using ne l h by (cases "download_file page") (auto simp: d)
  obtain v where v: "download_title page = Some v"
    using ne l h f by (cases "download_title page") (auto simp: d)
  obtain t where t: "v = PStr t"
    using ne l h f v by (cases v) (auto simp: d)
  obtain desc where e: "download_description page = Some desc"
    using ne l h f v t by (cases "download_description page") (auto simp: d title_kb_value)
  obtain os where o: "operating_system page = Some os"
    using ne l h f v t e by (cases "operating_system page") (auto simp: d title_kb_value)
  from assms have "pd_kb u = files_kb (if contains ''kb'' (lower t) then Some (PStr (kb_digits t)) else None) files"
    by (auto simp: d l h f v t e o title_kb_value)
  with v t f show ?thesis by blast
qed

lemma patch_records_elem:
  "patch_records dumps kb us = Inr rs \<Longrightarrow> r \<in> set rs \<Longrightarrow> \<exists>u \<in> set us. patch_record dumps kb u = Inr r"
proof (induction us arbitrary: rs)
  case Nil
  then show ?case by simp
next
  case (Cons u us)
  then show ?case by (auto split: sum.splits)
qed

lemma download_center_elem:
  assumes "r \<in> set (get_microsoft_download_center_update dumps page kb)"
  shows "\<exists>u \<in> set (get_microsoft_windows_product_update page). patch_record dumps kb u = Inr r"
proof -
  define us where "us = get_microsoft_windows_product_update page"
  have eq: "get_microsoft_download_center_update dumps page kb =
        (if us \<noteq> [] then (case patch_records dumps kb us of Inl e \<Rightarrow> [] | Inr rs \<Rightarrow> rs) else [])"
    by (simp add: get_microsoft_download_center_update_def Let_def us_def)
  show ?thesis
  proof (cases "patch_records dumps kb us")
    case (Inl e)
    with assms eq have False by (cases "us = []") simp_all
    then show ?thesis ..
  next
    case (Inr rs)
    with assms eq have "r \<in> set rs" by (cases "us = []") simp_all
    with Inr show ?thesis unfolding us_def by (rule patch_records_elem)
  qed
qed

lemma patch_record_shape:
  assumes "patch_record dumps kb u = Inr r"
  shows "\<exists>ds k. (if \<not> truthy (get_kb (pd_kb u)) then kb else get_kb (pd_kb u)) = PStr k
           \<and> r = [(''kb'', PStr k),
                   (''title'', PStr (pd_title u)),
                   (''kb_numbers'', PStr k),
                   (''version'', pd_version u),
                   (''last_updated'', pd_last_updated u),
                   (''classification'', PStr ''Product Update''),
                   (''languages'', PStr (pd_language u)),
                   (''superseeds'', PStr ''None''),
                   (''msrc_number'', PStr ''None''),
                   (''msrc_severity'', PStr ''None''),
                   (''products_applicable'', pd_supported_products u),
                   (''architecture'', pd_architecture u),
                   (''uninstallable'', PStr ''Yes''),
                   (''requires_connectivity'', PStr ''No''),
                   (''requires_user_input'', PStr ''No''),
                   (''requires_restart'', PStr ''Yes''),
                   (''update_size'', PStr (pd_update_size u)),
                   (''more_info'', pd_update_url u),
                   (''description'', pd_description u),
                   (''support_url'', PStr (''https://support.microsoft.com/help/'' @ k)),
                   (''download_urls'', PStr (dumps (PList (map PDict ds))))]"
proof -
  define patch_kb where "patch_kb = (if \<not> truthy (get_kb (pd_kb u)) then kb else get_kb (pd_kb u))"
  from assms obtain ds link where
    ds: "add_all_link_keys (pd_download_info u) = Inr ds" and link: "support_link patch_kb = Inr link"
    unfolding patch_record_def Let_def patch_kb_def by (auto split: sum.splits)
  from link obtain k where k: "patch_kb = PStr k" "link = ''https://support.microsoft.com/help/'' @ k"
    by (auto simp: support_link_def split: pyval.splits)
  from assms ds link k have "r = [(''kb'', PStr k),
                   (''title'', PStr (pd_title u)),
                   (''kb_numbers'', PStr k),
                   (''version'', pd_version u),
                   (''last_updated'', pd_last_updated u),
                   (''classification'', PStr ''Product Update''),
                   (''languages'', PStr (pd_language u)),
                   (''superseeds'', PStr ''None''),
                   (''msrc_number'', PStr ''None''),
                   (''msrc_severity'', PStr ''None''),
                   (''products_applicable'', pd_supported_products u),
                   (''architecture'', pd_architecture u),
                   (''uninstallable'', PStr ''Yes''),
                   (''requires_connectivity'', PStr ''No''),
                   (''requires_user_input'', PStr ''No''),
                   (''requires_restart'', PStr ''Yes''),
                   (''update_size'', PStr (pd_update_size u)),
                   (''more_info'', pd_update_url u),
                   (''description'', pd_description u),
                   (''support_url'', PStr (''https://support.microsoft.com/help/'' @ k)),
                   (''download_urls'', PStr (dumps (PList (map PDict ds))))]"
    unfolding patch_record_def Let_def patch_kb_def [symmetric] by simp
  with k show ?thesis unfolding patch_kb_def by blast
qed

lemma get_kb_number_kind: "get_kb_number files = PNone \<or> (\<exists>s. get_kb_number files = PStr s)"
  by (induction files) (auto simp: Let_def split: pyval.splits sum.splits)

text \<open>
  A page whose parts all decode, whose files all have a \<open>url\<close> and a \<open>name\<close>, searched
  with a KB that is text, gives exactly one record.
\<close>

lemma download_center_one_record:
  assumes "canonical_link page = Some link" "has_details page" "download_file page = Some files"
    "download_title page = Some (PStr t)" "download_description page = Some desc"
    "operating_system page = Some os" "add_all_link_keys files = Inr ds"
  shows "\<exists>r. get_microsoft_download_center_update dumps page (PStr k) = [r]"
proof -
  define from_title where
    "from_title = (if contains ''kb'' (lower t) then Some (PStr (kb_digits t)) else None)"
  define u where "u = \<lparr>pd_download_info = files,
      pd_update_size = get_update_size files,
      pd_version = get_version_number files,
      pd_last_updated = get_last_updated files,
      pd_architecture = get_architecture files,
      pd_title = t,
      pd_kb = files_kb from_title files,
      pd_description = desc,
      pd_supported_products = os,
      pd_language = ''English'',
      pd_update_url = link\<rparr>"
  have us: "get_microsoft_windows_product_update page = [u]"
    by (simp add: get_microsoft_windows_product_update_def assms title_kb_value u_def from_title_def)
  define patch_kb where
    "patch_kb = (if \<not> truthy (get_kb (pd_kb u)) then PStr k else get_kb (pd_kb u))"
  have "patch_kb = (if kb_digits t \<noteq> [] then PStr (kb_digits t)
          else if truthy (get_kb_number files) then get_kb_number files
          else PStr k)"
  proof -
    have kbu: "pd_kb u = files_kb (if contains ''kb'' (lower t) then Some (PStr (kb_digits t)) else None) files"
      by (simp add: u_def from_title_def)
    show ?thesis unfolding patch_kb_def kbu by (rule derived_kb)
  qed
  then have "\<exists>k'. patch_kb = PStr k'"
    using get_kb_number_kind [of files] by (cases "kb_digits t \<noteq> []") (auto split: if_splits)
  then obtain k' where "patch_kb = PStr k'" by blast
  then have "\<exists>r. patch_record dumps (PStr k) u = Inr r"
    unfolding patch_record_def Let_def patch_kb_def [symmetric]
    by (simp add: u_def assms support_link_def)
  then show ?thesis
    by (auto simp: get_microsoft_download_center_update_def us)
qed

text \<open>Where no \<open>kb\<close> comes earlier, the first \<open>kb\<close> is the one written out.\<close>

lemma index_first: "\<not> contains ''kb'' x \<Longrightarrow> index (x @ ''kb'' @ y) ''kb'' = Inr (length x)"
proof (induction x)
  case Nil
  then show ?case by (simp add: starts_with_def)
next
  case (Cons c cs)
  then have no: "\<not> starts_with ''kb'' (c # cs)" and rest: "\<not> contains ''kb'' cs" by simp_all
  have "\<not> starts_with ''kb'' ((c # cs) @ ''kb'' @ y)"
  proof (cases cs)
    case Nil
    then show ?thesis by (simp add: starts_with_def)
  next
    case (Cons d ds)
    with no show ?thesis by (simp add: starts_with_def)
  qed
  with Cons.IH [OF rest] show ?case by simp
qed

lemma kb_digits_first:
  assumes "lower t = x @ ''kb'' @ y" "\<not> contains ''kb'' x"
  shows "kb_digits t = takeWhile isdigit y"
proof -
  have "index (lower t) ''kb'' = Inr (length x)"
    unfolding assms(1) using assms(2) by (rule index_first)
  then show ?thesis by (simp add: kb_digits_def digits_after_kb_def assms(1))
qed

lemma record_kb_value:
  assumes "r \<in> set (get_microsoft_download_center_update dumps page kb)"
  shows "\<exists>t files. download_title page = Some (PStr t) \<and> download_file page = Some files
        \<and> map_of r ''kb'' =
            Some (if kb_digits t \<noteq> [] then PStr (kb_digits t)
                  else if truthy (get_kb_number files) then get_kb_number files
                  else kb)"
proof -
  from assms obtain u where u: "u \<in> set (get_microsoft_windows_product_update page)"
    and r: "patch_record dumps kb u = Inr r"
    using download_center_elem by blast
  from u obtain t files where page: "download_title page = Some (PStr t)"
    "download_file page = Some files"
    and kbu: "pd_kb u = files_kb (if contains ''kb'' (lower t) then Some (PStr (kb_digits t)) else None) files"
    using product_update_elem by blast
  from r obtain k tl where k: "(if \<not> truthy (get_kb (pd_kb u)) then kb else get_kb (pd_kb u)) = PStr k"
    and shape: "r = (''kb'', PStr k) # tl"
    using patch_record_shape [of dumps kb u r] by blast
  from k have "PStr k = (if kb_digits t \<noteq> [] then PStr (kb_digits t)
                  else if truthy (get_kb_number files) then get_kb_number files
                  else kb)"
    unfolding kbu derived_kb by simp
  with shape have "map_of r ''kb'' =
            Some (if kb_digits t \<noteq> [] then PStr (kb_digits t)
                  else if truthy (get_kb_number files) then get_kb_number files
                  else kb)"
    by simp
  with page show ?thesis by blast
qed

text \<open>
  Claim C7, amended. The \<open>kb\<close> of a record of the download-center path is, in this
  order: the digits that immediately follow the first \<open>kb\<close> of the lowercased download
  title, when that first \<open>kb\<close> is followed by a digit; else the result of
  \<open>get_kb_number\<close> on the file list, when it is not empty; else the KB the caller
  passed. \<open>get_kb_number\<close> reads only the first file name that contains \<open>kb\<close>, and
  gives the digits that immediately follow the first \<open>kb\<close> of that lowercased name. A
  later \<open>kb\<close> of the title and a later file name are not looked at. The title
  \<open>2024-01 Update for Windows (KB5034123)\<close> gives \<open>5034123\<close>.
\<close>

theorem kb_derivation_order:
  "(\<forall>r \<in> set (get_microsoft_download_center_update dumps page kb).
      \<exists>t files. download_title page = Some (PStr t) \<and> download_file page = Some files
        \<and> map_of r ''kb'' =
            Some (if kb_digits t \<noteq> [] then PStr (kb_digits t)
                  else if truthy (get_kb_number files) then get_kb_number files
                  else kb))
   \<and> kb_digits ''2024-01 Update for Windows (KB5034123)'' = ''5034123''
   \<and> (dict_get d ''name'' = PStr s \<and> contains ''kb'' (lower s)
        \<longrightarrow> get_kb_number (d # ds) = PStr (kb_digits s))
   \<and> (dict_get d ''name'' = PStr s \<and> \<not> contains ''kb'' (lower s)
        \<longrightarrow> get_kb_number (d # ds) = get_kb_number ds)
   \<and> get_kb_number [] = PNone
   \<and> (lower t = x @ ''kb'' @ y \<and> \<not> contains ''kb'' x \<longrightarrow> kb_digits t = takeWhile isdigit y)
   \<and> (\<not> contains ''kb'' (lower t) \<longrightarrow> kb_digits t = [])"
proof (intro conjI ballI impI)
  fix r
  assume "r \<in> set (get_microsoft_download_center_update dumps page kb)"
  then show "\<exists>t files. download_title page = Some (PStr t) \<and> download_file page = Some files
        \<and> map_of r ''kb'' =
            Some (if kb_digits t \<noteq> [] then PStr (kb_digits t)
                  else if truthy (get_kb_number files) then get_kb_number files
                  else kb)"
    by (rule record_kb_value)
next
  show "kb_digits ''2024-01 Update for Windows (KB5034123)'' = ''5034123''"
    by (simp add: kb_digits_def text_eval)
next
  show "get_kb_number (d # ds) = PStr (kb_digits s)"
    if "dict_get d ''name'' = PStr s \<and> contains ''kb'' (lower s)"
    using that get_kb_number_name [of d s ds] by simp
next
  show "get_kb_number (d # ds) = get_kb_number ds"
    if "dict_get d ''name'' = PStr s \<and> \<not> contains ''kb'' (lower s)"
    using that get_kb_number_name [of d s ds] by simp
next
  show "get_kb_number [] = PNone" by simp
next
  show "kb_digits t = takeWhile isdigit y"
    if "lower t = x @ ''kb'' @ y \<and> \<not> contains ''kb'' x"
    using that kb_digits_first [of t x y] by blast
next
  show "kb_digits t = []" if "\<not> contains ''kb'' (lower t)"
    using that by (rule kb_digits_missing)
qed

text \<open>
  Three pages searched with the KB 4530684: the title names a KB; only the file name
  names one; neither does.
\<close>

theorem kb_derivation_order_witness:
  "map (\<lambda>r. map_of r ''kb'')
     (get_microsoft_download_center_update (\<lambda>v. ''[]'')
        (sample_page ''Fix (KB12)'' [[(''name'', PStr ''kb7.msu''), (''url'', PStr ''u'')]])
        (PStr ''4530684''))
     = [Some (PStr ''12'')]
   \<and> map (\<lambda>r. map_of r ''kb'')
     (get_microsoft_download_center_update (\<lambda>v. ''[]'')
        (sample_page ''Fix'' [[(''name'', PStr ''KB7.msu''), (''url'', PStr ''u'')]])
        (PStr ''4530684''))
     = [Some (PStr ''7'')]
   \<and> map (\<lambda>r. map_of r ''kb'')
     (get_microsoft_download_center_update (\<lambda>v. ''[]'')
        (sample_page ''Fix'' [[(''name'', PStr ''a.exe''), (''url'', PStr ''u'')]])
        (PStr ''4530684''))
     = [Some (PStr ''4530684'')]"
proof -
  let ?dumps = "\<lambda>v::pyval. ''[]''"
  let ?kb = "PStr ''4530684''"
  let ?f1 = "[[(''name'', PStr ''kb7.msu''), (''url'', PStr ''u'')]]"
  let ?f2 = "[[(''name'', PStr ''KB7.msu''), (''url'', PStr ''u'')]]"
  let ?f3 = "[[(''name'', PStr ''a.exe''), (''url'', PStr ''u'')]]"
  let ?p1 = "sample_page ''Fix (KB12)'' ?f1"
  let ?p2 = "sample_page ''Fix'' ?f2"
  let ?p3 = "sample_page ''Fix'' ?f3"
  have t1: "kb_digits ''Fix (KB12)'' = ''12''"
    by (simp add: kb_digits_def text_eval)
  have t2: "kb_digits ''Fix'' = []"
    by (simp add: kb_digits_def text_eval)
  have g2: "get_kb_number ?f2 = PStr ''7''" by (simp add: text_eval)
  have g3: "get_kb_number ?f3 = PNone" by (simp add: text_eval)
  have l1: "add_all_link_keys ?f1 = Inr [dict_set (dict_set (hd ?f1) ''download_link'' (PStr ''u'')) ''file_name'' (PStr ''kb7.msu'')]"
    by (simp add: add_link_keys_def dict_item_def)
  have l2: "add_all_link_keys ?f2 = Inr [dict_set (dict_set (hd ?f2) ''download_link'' (PStr ''u'')) ''file_name'' (PStr ''KB7.msu'')]"
    by (simp add: add_link_keys_def dict_item_def)
  have l3: "add_all_link_keys ?f3 = Inr [dict_set (dict_set (hd ?f3) ''download_link'' (PStr ''u'')) ''file_name'' (PStr ''a.exe'')]"
    by (simp add: add_link_keys_def dict_item_def)
  have one: "\<exists>r. get_microsoft_download_center_update ?dumps ?p1 ?kb = [r]"
    by (rule download_center_one_record [OF _ _ _ _ _ _ l1]) (simp_all add: sample_page_def)
  have two: "\<exists>r. get_microsoft_download_center_update ?dumps ?p2 ?kb = [r]"
    by (rule download_center_one_record [OF _ _ _ _ _ _ l2]) (simp_all add: sample_page_def)
  have three: "\<exists>r. get_microsoft_download_center_update ?dumps ?p3 ?kb = [r]"
    by (rule download_center_one_record [OF _ _ _ _ _ _ l3]) (simp_all add: sample_page_def)
  have titles: "download_title ?p1 = Some (PStr ''Fix (KB12)'')"
    "download_title ?p2 = Some (PStr ''Fix'')"
    "download_title ?p3 = Some (PStr ''Fix'')"
    "download_file ?p2 = Some ?f2" "download_file ?p3 = Some ?f3"
    by (simp_all add: sample_page_def)
  from one obtain r1 where r1: "get_microsoft_download_center_update ?dumps ?p1 ?kb = [r1]" by blast
  from two obtain r2 where r2: "get_microsoft_download_center_update ?dumps ?p2 ?kb = [r2]" by blast
  from three obtain r3 where r3: "get_microsoft_download_center_update ?dumps ?p3 ?kb = [r3]" by blast
  have "map_of r1 ''kb'' = Some (PStr ''12'')"
    using kb_derivation_order [of ?dumps ?p1 ?kb] r1 titles t1 by auto
  moreover have "map_of r2 ''kb'' = Some (PStr ''7'')"
    using kb_derivation_order [of ?dumps ?p2 ?kb] r2 titles t2 g2 by auto
  moreover have "map_of r3 ''kb'' = Some (PStr ''4530684'')"
    using kb_derivation_order [of ?dumps ?p3 ?kb] r3 titles t2 g3 by auto
  ultimately show ?thesis by (simp add: r1 r2 r3)
qed

text \<open>
  The claim as stated fails for a title with a \<open>kb\<close> before its KB number and a file
  list whose first name with \<open>kb\<close> has no digit after it: the title and the second file
  name both hold \<open>kb5034123\<close>, and the record gets the caller's KB.
\<close>

theorem kb_first_occurrence_counterexample:
  "contains ''kb5034123'' (lower ''Update for Excel Workbook Viewer (KB5034123)'')
   \<and> contains ''kb5034123'' (lower ''windows-kb5034123-x64.msu'')
   \<and> map (\<lambda>r. map_of r ''kb'')
       (get_microsoft_download_center_update (\<lambda>v. ''[]'')
          (sample_page ''Update for Excel Workbook Viewer (KB5034123)''
             [[(''name'', PStr ''kb-readme.txt''), (''url'', PStr ''u'')],
              [(''name'', PStr ''windows-kb5034123-x64.msu''), (''url'', PStr ''v'')]])
          (PStr ''999''))
     = [Some (PStr ''999'')]"
proof -
  let ?dumps = "\<lambda>v::pyval. ''[]''"
  let ?t = "''Update for Excel Workbook Viewer (KB5034123)''"
  let ?f = "[[(''name'', PStr ''kb-readme.txt''), (''url'', PStr ''u'')],
             [(''name'', PStr ''windows-kb5034123-x64.msu''), (''url'', PStr ''v'')]]"
  let ?page = "sample_page ?t ?f"
  have lt: "lower ?t = ''update for excel workbook viewer (kb5034123)''"
    by (simp add: lower_def lower_char_def capitals_def small_letters_def)
  have c1: "contains ''kb5034123'' (lower ?t)"
    unfolding lt by (simp add: starts_with_def)
  have c2: "contains ''kb5034123'' (lower ''windows-kb5034123-x64.msu'')"
    by (simp add: lower_def lower_char_def capitals_def small_letters_def starts_with_def)
  have t0: "kb_digits ?t = []"
    unfolding kb_digits_def lt by (simp add: digits_after_kb_def starts_with_def isdigit_def isdecimal_def)
  have g0: "get_kb_number ?f = PStr []" by (simp add: text_eval)
  have l: "\<exists>ds. add_all_link_keys ?f = Inr ds"
    by (simp add: add_link_keys_def dict_item_def)
  then obtain ds where ds: "add_all_link_keys ?f = Inr ds" by blast
  have "\<exists>r. get_microsoft_download_center_update ?dumps ?page (PStr ''999'') = [r]"
    by (rule download_center_one_record [OF _ _ _ _ _ _ ds]) (simp_all add: sample_page_def)
  then obtain r where r: "get_microsoft_download_center_update ?dumps ?page (PStr ''999'') = [r]"
    by blast
  then have "r \<in> set (get_microsoft_download_center_update ?dumps ?page (PStr ''999''))" by simp
  then obtain t files where "download_title ?page = Some (PStr t)" "download_file ?page = Some files"
    and kb: "map_of r ''kb'' =
            Some (if kb_digits t \<noteq> [] then PStr (kb_digits t)
                  else if truthy (get_kb_number files) then get_kb_number files
                  else PStr ''999'')"
    using record_kb_value by blast
  then have "t = ?t" "files = ?f" by (simp_all add: sample_page_def)
  with kb t0 g0 have "map_of r ''kb'' = Some (PStr ''999'')" by simp
  with c1 c2 r show ?thesis by simp
qed

text \<open>
  Claim C9. Every record of \<open>get_microsoft_download_center_update\<close> has the
  classification \<open>Product Update\<close>, is uninstallable \<open>Yes\<close>, requires connectivity
  \<open>No\<close>, user input \<open>No\<close> and a restart \<open>Yes\<close>; its support URL is
  \<open>https://support.microsoft.com/help/\<close> followed by its KB; and its KB is the one
  derived from the page when that is not empty, and the caller's KB otherwise.
\<close>

theorem fallback_record_constants:
  "\<forall>r \<in> set (get_microsoft_download_center_update dumps page kb).
     map_of r ''classification'' = Some (PStr ''Product Update'')
     \<and> map_of r ''uninstallable'' = Some (PStr ''Yes'')
     \<and> map_of r ''requires_connectivity'' = Some (PStr ''No'')
     \<and> map_of r ''requires_user_input'' = Some (PStr ''No'')
     \<and> map_of r ''requires_restart'' = Some (PStr ''Yes'')
     \<and> (\<exists>k. map_of r ''kb'' = Some (PStr k)
            \<and> map_of r ''support_url'' = Some (PStr (''https://support.microsoft.com/help/'' @ k)))
     \<and> (\<exists>u \<in> set (get_microsoft_windows_product_update page).
            map_of r ''kb'' = Some (if truthy (get_kb (pd_kb u)) then get_kb (pd_kb u) else kb))"
proof
  fix r
  assume "r \<in> set (get_microsoft_download_center_update dumps page kb)"
  then obtain u where u: "u \<in> set (get_microsoft_windows_product_update page)"
    and r: "patch_record dumps kb u = Inr r"
    using download_center_elem by blast
  from r obtain ds k where
    k: "(if \<not> truthy (get_kb (pd_kb u)) then kb else get_kb (pd_kb u)) = PStr k"
    and shape: "r = [(''kb'', PStr k),
                   (''title'', PStr (pd_title u)),
                   (''kb_numbers'', PStr k),
                   (''version'', pd_version u),
                   (''last_updated'', pd_last_updated u),
                   (''classification'', PStr ''Product Update''),
                   (''languages'', PStr (pd_language u)),
                   (''superseeds'', PStr ''None''),
                   (''msrc_number'', PStr ''None''),
                   (''msrc_severity'', PStr ''None''),
                   (''products_applicable'', pd_supported_products u),
                   (''architecture'', pd_architecture u),
                   (''uninstallable'', PStr ''Yes''),
                   (''requires_connectivity'', PStr ''No''),
                   (''requires_user_input'', PStr ''No''),
                   (''requires_restart'', PStr ''Yes''),
                   (''update_size'', PStr (pd_update_size u)),
                   (''more_info'', pd_update_url u),
                   (''description'', pd_description u),
                   (''support_url'', PStr (''https://support.microsoft.com/help/'' @ k)),
                   (''download_urls'', PStr (dumps (PList (map PDict ds))))]"
    using patch_record_shape [of dumps kb u r] by blast
  have c: "map_of r ''classification'' = Some (PStr ''Product Update'')"
    and un: "map_of r ''uninstallable'' = Some (PStr ''Yes'')"
    and co: "map_of r ''requires_connectivity'' = Some (PStr ''No'')"
    and ui: "map_of r ''requires_user_input'' = Some (PStr ''No'')"
    and re: "map_of r ''requires_restart'' = Some (PStr ''Yes'')"
    and kbv: "map_of r ''kb'' = Some (PStr k)"
    and su: "map_of r ''support_url'' = Some (PStr (''https://support.microsoft.com/help/'' @ k))"
    unfolding shape by simp_all
  from k have "PStr k = (if truthy (get_kb (pd_kb u)) then get_kb (pd_kb u) else kb)"
    by (simp split: if_splits)
  with kbv u have "\<exists>u \<in> set (get_microsoft_windows_product_update page).
      map_of r ''kb'' = Some (if truthy (get_kb (pd_kb u)) then get_kb (pd_kb u) else kb)"
    by auto
  with c un co ui re kbv su show
    "map_of r ''classification'' = Some (PStr ''Product Update'')
     \<and> map_of r ''uninstallable'' = Some (PStr ''Yes'')
     \<and> map_of r ''requires_connectivity'' = Some (PStr ''No'')
     \<and> map_of r ''requires_user_input'' = Some (PStr ''No'')
     \<and> map_of r ''requires_restart'' = Some (PStr ''Yes'')
     \<and> (\<exists>k. map_of r ''kb'' = Some (PStr k)
            \<and> map_of r ''support_url'' = Some (PStr (''https://support.microsoft.com/help/'' @ k)))
     \<and> (\<exists>u \<in> set (get_microsoft_windows_product_update page).
            map_of r ''kb'' = Some (if truthy (get_kb (pd_kb u)) then get_kb (pd_kb u) else kb))"
    by blast
qed

text \<open>A page that names no KB, searched with the KB 4530684: the record it gives.\<close>

theorem fallback_record_constants_witness:
  "map (\<lambda>r. (map_of r ''classification'', map_of r ''uninstallable'',
              map_of r ''requires_connectivity'', map_of r ''requires_user_input'',
              map_of r ''requires_restart''))
     (get_microsoft_download_center_update (\<lambda>v. ''[]'')
        (sample_page ''Fix'' [[(''name'', PStr ''a.exe''), (''url'', PStr ''u'')]])
        (PStr ''4530684''))
   = [(Some (PStr ''Product Update''), Some (PStr ''Yes''), Some (PStr ''No''),
       Some (PStr ''No''), Some (PStr ''Yes''))]"
proof -
  let ?dumps = "\<lambda>v::pyval. ''[]''"
  let ?f = "[[(''name'', PStr ''a.exe''), (''url'', PStr ''u'')]]"
  let ?page = "sample_page ''Fix'' ?f"
  have l: "add_all_link_keys ?f
      = Inr [dict_set (dict_set (hd ?f) ''download_link'' (PStr ''u'')) ''file_name'' (PStr ''a.exe'')]"
    by (simp add: add_link_keys_def dict_item_def)
  have "\<exists>r. get_microsoft_download_center_update ?dumps ?page (PStr ''4530684'') = [r]"
    by (rule download_center_one_record [OF _ _ _ _ _ _ l]) (simp_all add: sample_page_def)
  then obtain r where r: "get_microsoft_download_center_update ?dumps ?page (PStr ''4530684'') = [r]"
    by blast
  then have "r \<in> set (get_microsoft_download_center_update ?dumps ?page (PStr ''4530684''))"
    by simp
  with fallback_record_constants [of ?dumps ?page "PStr ''4530684''"]
  have "map_of r ''classification'' = Some (PStr ''Product Update'')
     \<and> map_of r ''uninstallable'' = Some (PStr ''Yes'')
     \<and> map_of r ''requires_connectivity'' = Some (PStr ''No'')
     \<and> map_of r ''requires_user_input'' = Some (PStr ''No'')
     \<and> map_of r ''requires_restart'' = Some (PStr ''Yes'')"
    by blast
  then show ?thesis by (simp add: r)
qed

section \<open>The supersedes list of a detail page\<close>

lemma dropWhile_keeps: "c \<in> set s \<Longrightarrow> \<not> P c \<Longrightarrow> c \<in> set (dropWhile P s)"
  by (induction s) auto

lemma strip_keeps: "c \<in> set s \<Longrightarrow> \<not> isspace c \<Longrightarrow> c \<in> set (strip s)"
proof -
  assume c: "c \<in> set s" "\<not> isspace c"
  then have "c \<in> set (rev (dropWhile isspace s))" by (simp add: dropWhile_keeps)
  with c(2) have "c \<in> set (dropWhile isspace (rev (dropWhile isspace s)))"
    by (simp add: dropWhile_keeps)
  then show ?thesis by (simp add: strip_def strip_with_def)
qed

lemma strip_nonblank: "strip t \<noteq> [] \<Longrightarrow> \<exists>c \<in> set (strip t). \<not> isspace c"
proof -
  assume ne: "strip t \<noteq> []"
  define ys where "ys = dropWhile isspace (rev (dropWhile isspace t))"
  have st: "strip t = rev ys" by (simp add: strip_def strip_with_def ys_def)
  with ne have ys: "ys \<noteq> []" by simp
  then have "\<not> isspace (hd ys)" unfolding ys_def by (rule hd_dropWhile)
  moreover from ys have "hd ys \<in> set (strip t)" by (simp add: st)
  ultimately show ?thesis by blast
qed

lemma replace_keeps: "c \<in> set s \<Longrightarrow> c \<notin> set old \<Longrightarrow> c \<in> set (replace old new s)"
proof (induction old new s rule: replace.induct)
  case (1 old new)
  then show ?case by simp
next
  case (2 old new x xs)
  show ?case
  proof (cases "old \<noteq> [] \<and> starts_with old (x # xs)")
    case True
    then have "x # xs = old @ drop (length old) (x # xs)"
      by (metis append_take_drop_id starts_with_def)
    with "2.prems" have "c \<in> set (drop (length old) (x # xs))"
      by (metis Un_iff set_append)
    with True "2.prems" "2.IH"(2) show ?thesis by simp
  next
    case False
    with "2.prems" "2.IH"(1,3) show ?thesis by auto
  qed
qed

lemma split_keeps: "c \<in> set s \<Longrightarrow> c \<noteq> sep \<Longrightarrow> \<exists>p \<in> set (split sep s). c \<in> set p"
  by (induction s) (auto split: list.splits)

lemma split_nonempty: "split sep s \<noteq> []"
  by (induction s) (auto split: list.splits)

text \<open>Text with a character that is not whitespace has an entry, with or without the
  replacement of the newline sequences.\<close>

lemma entries_nonempty:
  assumes "strip t \<noteq> []"
  shows "supersedes_entries (replace [CHR 0x0A, CHR 0x0D, CHR 0x0A] '' '' (strip t)) \<noteq> []"
proof -
  from assms obtain c where c: "c \<in> set (strip t)" "\<not> isspace c" using strip_nonblank by blast
  then have "c \<notin> set [CHR 0x0A, CHR 0x0D, CHR 0x0A]" and nl: "c \<noteq> CHR 0x0A"
    by (auto simp: isspace_def)
  with c have "c \<in> set (replace [CHR 0x0A, CHR 0x0D, CHR 0x0A] '' '' (strip t))"
    by (intro replace_keeps)
  with nl obtain p where p: "p \<in> set (split (CHR 0x0A) (replace [CHR 0x0A, CHR 0x0D, CHR 0x0A] '' '' (strip t)))"
    "c \<in> set p"
    using split_keeps by blast
  from p(2) c(2) have "c \<in> set (strip p)" by (rule strip_keeps)
  then have "strip p \<noteq> []" by auto
  with p(1) have "strip p \<in> set (filter (\<lambda>x. x \<noteq> [])
      (map strip (split (CHR 0x0A) (replace [CHR 0x0A, CHR 0x0D, CHR 0x0A] '' '' (strip t)))))"
    by auto
  then show ?thesis unfolding supersedes_entries_def by (metis empty_iff list.set(1) map_is_Nil_conv)
qed

text \<open>
  Claim C8, amended. \<open>superseeds\<close> is the text \<open>None\<close> when the page has no
  \<open>supersedesInfo\<close> container, and the empty text when the container's text is empty or
  only whitespace. Otherwise it is the list of the entries of the stripped text in which
  every sequence newline, carriage return, newline has first been replaced by one space:
  that text split on newlines, each piece stripped of surrounding whitespace and of
  carriage returns, the empty pieces dropped.
\<close>

theorem superseeds_value:
  "superseeds None = PStr ''None''
   \<and> (strip text = [] \<longrightarrow> superseeds (Some text) = PStr [])
   \<and> (strip text \<noteq> [] \<longrightarrow>
        superseeds (Some text) =
          PList (map PStr (supersedes_entries
            (replace [CHR 0x0A, CHR 0x0D, CHR 0x0A] '' '' (strip text)))))"
proof (intro conjI impI)
  show "superseeds None = PStr ''None''" by (simp add: superseeds_def)
  show "superseeds (Some text) = PStr []" if "strip text = []"
    using that by (simp add: superseeds_def)
  show "superseeds (Some text) =
          PList (map PStr (supersedes_entries
            (replace [CHR 0x0A, CHR 0x0D, CHR 0x0A] '' '' (strip text))))"
    if "strip text \<noteq> []"
    using that entries_nonempty [OF that]
    by (simp add: superseeds_def Let_def split_nonempty supersedes_entries_def)
qed

text \<open>
  Two entries on two lines that end in a carriage return and a newline; a container
  that holds only a newline.
\<close>

theorem superseeds_value_witness:
  "superseeds (Some ([CHR 0x20] @ ''KB1'' @ [CHR 0x0D, CHR 0x0A, CHR 0x20] @ ''KB2'' @ [CHR 0x0D, CHR 0x0A]))
     = PList [PStr ''KB1'', PStr ''KB2'']
   \<and> superseeds (Some [CHR 0x0A]) = PStr []"
proof -
  let ?t = "[CHR 0x20] @ ''KB1'' @ [CHR 0x0D, CHR 0x0A, CHR 0x20] @ ''KB2'' @ [CHR 0x0D, CHR 0x0A]"
  have s: "strip ?t = ''KB1'' @ [CHR 0x0D, CHR 0x0A, CHR 0x20] @ ''KB2''"
    by (simp add: strip_def strip_with_def isspace_def)
  have e: "supersedes_entries (replace [CHR 0x0A, CHR 0x0D, CHR 0x0A] '' ''
      (''KB1'' @ [CHR 0x0D, CHR 0x0A, CHR 0x20] @ ''KB2'')) = [''KB1'', ''KB2'']"
    by (simp add: supersedes_entries_def starts_with_def strip_def strip_with_def isspace_def)
  have b: "strip [CHR 0x0A] = []"
    by (simp add: strip_def strip_with_def isspace_def)
  from superseeds_value [of ?t] s e have "superseeds (Some ?t) = PList [PStr ''KB1'', PStr ''KB2'']"
    by simp
  moreover from superseeds_value [of "[CHR 0x0A]"] b have "superseeds (Some [CHR 0x0A]) = PStr []"
    by blast
  ultimately show ?thesis by blast
qed

text \<open>
  The claim as stated fails for the text of two entries that a newline, a carriage
  return and a newline separate: split on newlines it has the entries \<open>A\<close> and \<open>B\<close>,
  and \<open>superseeds\<close> is the list of the one entry \<open>A B\<close>.
\<close>

theorem superseeds_joined_counterexample:
  "supersedes_entries [CHR ''A'', CHR 0x0A, CHR 0x0D, CHR 0x0A, CHR ''B''] = [''A'', ''B'']
   \<and> superseeds (Some [CHR ''A'', CHR 0x0A, CHR 0x0D, CHR 0x0A, CHR ''B'']) = PList [PStr ''A B'']"
  by (simp add: superseeds_def supersedes_entries_def starts_with_def strip_def strip_with_def
      isspace_def Let_def)

section \<open>Records of the catalog path\<close>

lemma update_details_shape:
  assumes "update_details u = Inr d"
  shows "map fst d =
      [''kb'', ''title'', ''update_id'', ''kb_number'', ''version'', ''last_updated'',
       ''classification'', ''languages'', ''superseeds'', ''msrc_number'', ''msrc_severity'',
       ''products_applicable'', ''architecture'', ''uninstallable'', ''requires_connectivity'',
       ''requires_user_input'', ''requires_restart'', ''update_size'', ''more_info'',
       ''description'', ''support_url'', ''download_urls'']
    \<and> (\<exists>l. map_of d ''download_urls'' = Some (PList l))"
  using assms unfolding update_details_def and_then_def
  by (auto split: sum.splits)

lemma scan_updates_elem:
  "scan_updates found acc seeds = Inr (updates, seeds') \<Longrightarrow> r \<in> set updates
     \<Longrightarrow> r \<in> set acc \<or> (\<exists>u \<in> set found. update_details u = Inr r)"
proof (induction found arbitrary: acc seeds)
  case Nil
  then show ?case by simp
next
  case (Cons u found)
  from Cons.prems(1) obtain d where d: "update_details u = Inr d"
    by (cases "update_details u") simp_all
  let ?seeds = "if truthy (dict_get d ''title'') \<and> truthy (dict_get d ''superseeds'')
             then seeds @ [dict_get d ''superseeds''] else seeds"
  from Cons.prems(1) d have "scan_updates found (acc @ [d]) ?seeds = Inr (updates, seeds')"
    by simp
  from Cons.IH [OF this Cons.prems(2)] d show ?case by auto
qed

lemma catalogue_elem:
  assumes "find_microsoft_catelogue_updates found = Some rs" "r \<in> set rs"
  shows "\<exists>u \<in> set found. update_details u = Inr r"
proof -
  from assms(1) obtain updates seeds where s: "scan_updates found [] [] = Inr (updates, seeds)"
    and rs: "rs = filter (\<lambda>update. \<not> super_seed_found seeds update) updates"
    unfolding find_microsoft_catelogue_updates_def
    by (auto split: sum.splits if_splits)
  from rs assms(2) have "r \<in> set updates" by simp
  with s show ?thesis using scan_updates_elem [of found "[]" "[]" updates seeds r] by simp
qed

text \<open>The record of a sample update.\<close>

lemma sample_details:
  "update_details (sample_update t info) =
     Inr [(''kb'', PList [PInt 4530684]),
          (''title'', PStr t),
          (''update_id'', PStr ''11111111-2222-3333-4444-555555555555''),
          (''kb_number'', PList [PInt 4530684]),
          (''version'', PStr ''n/a''),
          (''last_updated'', PStr ''2019-12-10 00:00:00''),
          (''classification'', PStr ''Security Updates''),
          (''languages'', PStr ''all''),
          (''superseeds'', superseeds info),
          (''msrc_number'', PNone),
          (''msrc_severity'', PNone),
          (''products_applicable'', PStr ''windows 10''),
          (''architecture'', PStr ''AMD64''),
          (''uninstallable'', PBool True),
          (''requires_connectivity'', PStr ''No''),
          (''requires_user_input'', PStr ''No''),
          (''requires_restart'', PStr ''Yes''),
          (''update_size'', PStr ''1.0 MB''),
          (''more_info'', PStr ''https://support.microsoft.com/help/4530684''),
          (''description'', PStr ''Install this update.''),
          (''support_url'', PStr ''https://support.microsoft.com''),
          (''download_urls'',
             PList [PDict [(''file_name'', PStr ''a.msu''),
                           (''download_link'',
                              PStr ''https://catalog.s.download.windowsupdate.com/d/a.msu'')]])]"
proof -
  have kb: "kb_numbers None (Some [Text ''4530684'']) = Inr (Some [4530684])"
    by (simp add: kb_numbers_def text_eval)
  have kb2: "kb_numbers (Some [4530684]) (Some [Text ''4530684'']) = Inr (Some [4530684])"
    by (simp add: kb_numbers_def)
  have lo: "lower ''Windows 10'' = ''windows 10''" by (simp add: text_eval)
  have fn: "last (split CHR ''/'' ''/d/a.msu'') = ''a.msu''" by simp
  show ?thesis
    by (simp add: update_details_def and_then_def sample_update_def kb kb2 lo fn product_def
        kb_value_def download_entry_def)
qed

text \<open>
  Claim C1, at an input where the code departs from it. The search yields an update
  titled \<open>A\<close> whose supersedes text is \<open>B\<close> and an update titled \<open>B\<close>: both are
  returned, although the title \<open>B\<close> is an entry of the supersedes list of the first.
  An update titled \<open>A\<close> whose supersedes text is \<open>A\<close> is returned as well.
\<close>

theorem superseded_update_retained:
  "(\<exists>r1 r2. find_microsoft_catelogue_updates [sample_update ''A'' (Some ''B''), sample_update ''B'' None]
        = Some [r1, r2]
      \<and> map_of r1 ''title'' = Some (PStr ''A'') \<and> map_of r1 ''superseeds'' = Some (PList [PStr ''B''])
      \<and> map_of r2 ''title'' = Some (PStr ''B'') \<and> map_of r2 ''superseeds'' = Some (PStr ''None''))
   \<and> (\<exists>r. find_microsoft_catelogue_updates [sample_update ''A'' (Some ''A'')] = Some [r]
      \<and> map_of r ''title'' = Some (PStr ''A'') \<and> map_of r ''superseeds'' = Some (PList [PStr ''A'']))"
proof -
  have a: "superseeds (Some ''A'') = PList [PStr ''A'']"
    by (simp add: superseeds_def strip_def strip_with_def isspace_def starts_with_def Let_def)
  have b: "superseeds (Some ''B'') = PList [PStr ''B'']"
    by (simp add: superseeds_def strip_def strip_with_def isspace_def starts_with_def Let_def)
  have n: "superseeds None = PStr ''None''" by (simp add: superseeds_def)
  show ?thesis
    by (simp add: find_microsoft_catelogue_updates_def sample_details a b n dict_get_def
        super_seed_found_def py_eq_def)
qed

section \<open>The keys of the records\<close>

text \<open>
  Claim C2. Every record that \<open>find_microsoft_catelogue_updates\<close> returns has the twenty
  shared keys and the key \<open>update_id\<close>, and a list under \<open>download_urls\<close>. Every record
  that \<open>get_microsoft_download_center_update\<close> returns has the twenty shared keys and
  the key \<open>kb_numbers\<close>, and under \<open>download_urls\<close> the text that \<open>json.dumps\<close> made of
  the list of files.
\<close>

theorem record_keys:
  "(\<forall>rs. find_microsoft_catelogue_updates found = Some rs \<longrightarrow>
      (\<forall>r \<in> set rs. set fixed_keys \<subseteq> set (map fst r) \<and> ''update_id'' \<in> set (map fst r)
         \<and> (\<exists>l. map_of r ''download_urls'' = Some (PList l))))
   \<and> (\<forall>r \<in> set (get_microsoft_download_center_update dumps page kb).
        set fixed_keys \<subseteq> set (map fst r) \<and> ''kb_numbers'' \<in> set (map fst r)
        \<and> (\<exists>files. map_of r ''download_urls'' = Some (PStr (dumps (PList (map PDict files))))))"
proof (intro conjI allI impI ballI)
  fix rs r
  assume "find_microsoft_catelogue_updates found = Some rs" "r \<in> set rs"
  then obtain u where "update_details u = Inr r" using catalogue_elem by blast
  then have keys: "map fst r =
      [''kb'', ''title'', ''update_id'', ''kb_number'', ''version'', ''last_updated'',
       ''classification'', ''languages'', ''superseeds'', ''msrc_number'', ''msrc_severity'',
       ''products_applicable'', ''architecture'', ''uninstallable'', ''requires_connectivity'',
       ''requires_user_input'', ''requires_restart'', ''update_size'', ''more_info'',
       ''description'', ''support_url'', ''download_urls'']"
    and urls: "\<exists>l. map_of r ''download_urls'' = Some (PList l)"
    using update_details_shape by blast+
  show "set fixed_keys \<subseteq> set (map fst r)" unfolding keys fixed_keys_def by simp
  show "''update_id'' \<in> set (map fst r)" unfolding keys by simp
  show "\<exists>l. map_of r ''download_urls'' = Some (PList l)" by (rule urls)
next
  fix r
  assume "r \<in> set (get_microsoft_download_center_update dumps page kb)"
  then obtain u where "patch_record dumps kb u = Inr r" using download_center_elem by blast
  then obtain ds k where shape: "r = [(''kb'', PStr k),
                   (''title'', PStr (pd_title u)),
                   (''kb_numbers'', PStr k),
                   (''version'', pd_version u),
                   (''last_updated'', pd_last_updated u),
                   (''classification'', PStr ''Product Update''),
                   (''languages'', PStr (pd_language u)),
                   (''superseeds'', PStr ''None''),
                   (''msrc_number'', PStr ''None''),
                   (''msrc_severity'', PStr ''None''),
                   (''products_applicable'', pd_supported_products u),
                   (''architecture'', pd_architecture u),
                   (''uninstallable'', PStr ''Yes''),
                   (''requires_connectivity'', PStr ''No''),
                   (''requires_user_input'', PStr ''No''),
                   (''requires_restart'', PStr ''Yes''),
                   (''update_size'', PStr (pd_update_size u)),
                   (''more_info'', pd_update_url u),
                   (''description'', pd_description u),
                   (''support_url'', PStr (''https://support.microsoft.com/help/'' @ k)),
                   (''download_urls'', PStr (dumps (PList (map PDict ds))))]"
    using patch_record_shape [of dumps kb u r] by blast
  show "set fixed_keys \<subseteq> set (map fst r)" unfolding shape fixed_keys_def by simp
  show "''kb_numbers'' \<in> set (map fst r)" unfolding shape by simp
  have "map_of r ''download_urls'' = Some (PStr (dumps (PList (map PDict ds))))"
    unfolding shape by simp
  then show "\<exists>files. map_of r ''download_urls'' = Some (PStr (dumps (PList (map PDict files))))"
    by blast
qed

text \<open>
  A catalog search that yields one update with no \<open>supersedesInfo\<close> container, and a
  download-center page with one file.
\<close>

theorem record_keys_witness:
  "(\<exists>r. find_microsoft_catelogue_updates [sample_update ''Sample KB1111111'' None] = Some [r]
      \<and> map_of r ''superseeds'' = Some (PStr ''None'')
      \<and> set fixed_keys \<subseteq> set (map fst r) \<and> ''update_id'' \<in> set (map fst r)
      \<and> (\<exists>l. map_of r ''download_urls'' = Some (PList l)))
   \<and> (\<exists>r. get_microsoft_download_center_update (\<lambda>v. ''[]'')
              (sample_page ''Fix'' [[(''name'', PStr ''a.exe''), (''url'', PStr ''u'')]])
              (PStr ''4530684'') = [r]
      \<and> set fixed_keys \<subseteq> set (map fst r) \<and> ''kb_numbers'' \<in> set (map fst r)
      \<and> map_of r ''download_urls'' = Some (PStr ''[]''))"
proof -
  let ?found = "[sample_update ''Sample KB1111111'' None]"
  let ?dumps = "\<lambda>v::pyval. ''[]''"
  let ?f = "[[(''name'', PStr ''a.exe''), (''url'', PStr ''u'')]]"
  let ?page = "sample_page ''Fix'' ?f"
  have n: "superseeds None = PStr ''None''" by (simp add: superseeds_def)
  have "\<exists>r. find_microsoft_catelogue_updates ?found = Some [r]
      \<and> map_of r ''superseeds'' = Some (PStr ''None'')"
    by (simp add: find_microsoft_catelogue_updates_def sample_details n dict_get_def
        super_seed_found_def py_eq_def)
  then obtain r where r: "find_microsoft_catelogue_updates ?found = Some [r]"
    "map_of r ''superseeds'' = Some (PStr ''None'')"
    by blast
  with record_keys [of ?found ?dumps ?page "PStr ''4530684''"]
  have one: "set fixed_keys \<subseteq> set (map fst r) \<and> ''update_id'' \<in> set (map fst r)
      \<and> (\<exists>l. map_of r ''download_urls'' = Some (PList l))"
    by simp
  have l: "add_all_link_keys ?f
      = Inr [dict_set (dict_set (hd ?f) ''download_link'' (PStr ''u'')) ''file_name'' (PStr ''a.exe'')]"
    by (simp add: add_link_keys_def dict_item_def)
  have "\<exists>q. get_microsoft_download_center_update ?dumps ?page (PStr ''4530684'') = [q]"
    by (rule download_center_one_record [OF _ _ _ _ _ _ l]) (simp_all add: sample_page_def)
  then obtain q where q: "get_microsoft_download_center_update ?dumps ?page (PStr ''4530684'') = [q]"
    by blast
  with record_keys [of ?found ?dumps ?page "PStr ''4530684''"]
  have two: "set fixed_keys \<subseteq> set (map fst q) \<and> ''kb_numbers'' \<in> set (map fst q)
      \<and> map_of q ''download_urls'' = Some (PStr ''[]'')"
    by auto
  from r one q two show ?thesis by blast
qed

end
